theory Spec2Isabelle
  imports Complex_Main "HOL-Library.Word"
begin

section \<open>Conventions\<close>

text \<open>
  The theory embeds the two controllers of \<^verbatim>\<open>src/ipa/ipu3/algorithms\<close>: each member
  function is a function from the state it reads to the state it leaves.
  \<^item> A name of the source that ends in an underscore is not a name here: the constants
    drop it and a member \<^verbatim>\<open>x_\<close> of a class is the field \<open>m_x\<close>.
  \<^item> Unsigned counters are \<open>nat\<close>. The additions that could wrap
    (\<^verbatim>\<open>focus_ += MinSearchStep_\<close>, \<^verbatim>\<open>total + y2_avg\<close>, \<^verbatim>\<open>hist[i]++\<close>,
    \<^verbatim>\<open>cellY * stride_ + cellX\<close>, \<^verbatim>\<open>frameCount_++\<close>) are written \<open>mod 2 ^ w\<close>; both
    decrements of \<^verbatim>\<open>ignoreFrame_\<close> are guarded by a test for zero in the source.
  \<^item> An integer division by zero and a conversion of a floating-point value to an
    unsigned integer that the integer cannot hold are undefined behaviour in C++: they are
    the values of \<open>fault\<close>, and end the call.
  \<^item> In the auto focus \<^verbatim>\<open>double\<close> is \<open>real\<close>; its one division that can be by zero,
    by \<^verbatim>\<open>maxVariance\<close>, is split into its IEEE cases.
  \<^item> In the auto exposure every \<^verbatim>\<open>double\<close> that the controller computes is a
    \<open>double\<close> as defined below: a real number, an infinity or not a number, with the
    IEEE rules, so that a call goes on after a division by zero as it does in the source.
    What the pipeline hands over (the session limits, the gains applied by the sensor and
    the white balance) is finite and is \<open>real\<close>.
  \<^item> The results of \<open>+\<close>, \<open>*\<close> and \<open>/\<close> on numbers are exact, with one exception: the
    line duration and every quotient by it are rounded as the source rounds them
    (\<open>round_double\<close>, \<open>round_extended\<close>), because the quotient is truncated to a count of
    lines and the rounding can change the count. All other statements about \<^verbatim>\<open>double\<close>
    values hold of the exact values of the expressions.
  \<^item> Types, constants and functions of headers that are not among the sources at hand
    are taken from the way the source uses them, and named where they appear.
\<close>

text \<open>What ends a call.\<close>

datatype fault = DivisionByZero | ConversionOutOfRange

section \<open>Floating-point values\<close>

text \<open>
  The values of a \<^verbatim>\<open>double\<close>. The two zeros are one value: a zero divisor counts as
  positive, which is what it is wherever this program divides a number other than zero
  by zero (the divisors are converted unsigned integers, a mean of bin indices, a sum
  whose terms cancel, and durations that are not negative).
\<close>

datatype double = Fin real | PInf | MInf | NaN

fun dadd :: "double \<Rightarrow> double \<Rightarrow> double" where
  "dadd (Fin a) (Fin b) = Fin (a + b)"
| "dadd NaN y = NaN"
| "dadd x NaN = NaN"
| "dadd PInf MInf = NaN"
| "dadd MInf PInf = NaN"
| "dadd PInf y = PInf"
| "dadd x PInf = PInf"
| "dadd MInf y = MInf"
| "dadd x MInf = MInf"

fun dmul :: "double \<Rightarrow> double \<Rightarrow> double" where
  "dmul (Fin a) (Fin b) = Fin (a * b)"
| "dmul NaN y = NaN"
| "dmul x NaN = NaN"
| "dmul (Fin a) PInf = (if 0 < a then PInf else if a < 0 then MInf else NaN)"
| "dmul (Fin a) MInf = (if 0 < a then MInf else if a < 0 then PInf else NaN)"
| "dmul PInf (Fin b) = (if 0 < b then PInf else if b < 0 then MInf else NaN)"
| "dmul MInf (Fin b) = (if 0 < b then MInf else if b < 0 then PInf else NaN)"
| "dmul PInf PInf = PInf"
| "dmul MInf MInf = PInf"
| "dmul PInf MInf = MInf"
| "dmul MInf PInf = MInf"

fun ddiv :: "double \<Rightarrow> double \<Rightarrow> double" where
  "ddiv (Fin a) (Fin b) =
     (if b \<noteq> 0 then Fin (a / b) else if 0 < a then PInf else if a < 0 then MInf else NaN)"
| "ddiv NaN y = NaN"
| "ddiv x NaN = NaN"
| "ddiv (Fin a) PInf = Fin 0"
| "ddiv (Fin a) MInf = Fin 0"
| "ddiv PInf (Fin b) = (if 0 \<le> b then PInf else MInf)"
| "ddiv MInf (Fin b) = (if 0 \<le> b then MInf else PInf)"
| "ddiv PInf PInf = NaN"
| "ddiv PInf MInf = NaN"
| "ddiv MInf PInf = NaN"
| "ddiv MInf MInf = NaN"

text \<open>The comparisons \<^verbatim>\<open><\<close> and \<^verbatim>\<open>==\<close>: both are false when an operand is not a number.\<close>

fun dless :: "double \<Rightarrow> double \<Rightarrow> bool" where
  "dless (Fin a) (Fin b) = (a < b)"
| "dless NaN y = False"
| "dless x NaN = False"
| "dless x MInf = False"
| "dless MInf y = True"
| "dless PInf y = False"
| "dless x PInf = True"

definition deq :: "double \<Rightarrow> double \<Rightarrow> bool" where
  "deq x y \<longleftrightarrow> x \<noteq> NaN \<and> x = y"

text \<open>
  \<^verbatim>\<open>std::min\<close>, \<^verbatim>\<open>std::max\<close> and \<^verbatim>\<open>std::clamp\<close> as the standard library computes them
  with \<^verbatim>\<open><\<close> (\<^verbatim>\<open>std::clamp\<close> with \<open>hi < lo\<close> is undefined in C++; this is what the
  reference implementation returns).
\<close>

definition min_std :: "double \<Rightarrow> double \<Rightarrow> double" where
  "min_std a b = (if dless b a then b else a)"

definition max_std :: "double \<Rightarrow> double \<Rightarrow> double" where
  "max_std a b = (if dless a b then b else a)"

definition clamp_std :: "double \<Rightarrow> double \<Rightarrow> double \<Rightarrow> double" where
  "clamp_std v lo hi = (if dless v lo then lo else if dless hi v then hi else v)"

text \<open>
  A conversion of a \<^verbatim>\<open>double\<close> to \<^verbatim>\<open>uint32_t\<close> truncates towards zero and is undefined
  when the truncated value is not representable.
\<close>

fun to_uint32 :: "double \<Rightarrow> fault + nat" where
  "to_uint32 (Fin q) =
     (if q \<le> - 1 \<or> 2 ^ 32 \<le> q then Inl ConversionOutOfRange else Inr (nat \<lfloor>q\<rfloor>))"
| "to_uint32 x = Inl ConversionOutOfRange"

text \<open>
  Rounding to a binary format, to nearest with ties to even. The format has \<open>p\<close> bits
  after the leading one, the least exponent \<open>emin\<close>, and takes a result of magnitude
  \<open>overflow\<close> or more for an infinity. \<open>binade emin x\<close> is the exponent \<open>e\<close> of a
  positive \<open>x\<close>, with \<open>2 ^ e \<le> x < 2 ^ (e + 1)\<close>, and not below the exponent \<open>emin\<close>
  of the subnormal numbers; the numbers of that binade are the multiples of
  \<open>2 ^ (e - p)\<close>.
\<close>

fun log2_floor :: "nat \<Rightarrow> nat" where
  "log2_floor n = (if n < 2 then 0 else Suc (log2_floor (n div 2)))"

definition binade :: "int \<Rightarrow> real \<Rightarrow> int" where
  "binade emin x = (if 1 \<le> x then int (log2_floor (nat \<lfloor>x\<rfloor>))
                    else max emin (- 1 - int (log2_floor (nat (\<lceil>1 / x\<rceil> - 1)))))"

definition round_even :: "real \<Rightarrow> int" where
  "round_even y = (let f = \<lfloor>y\<rfloor>; d = y - of_int f
                   in if d < 1 / 2 then f else if 1 / 2 < d then f + 1
                      else if even f then f else f + 1)"

definition round_nearest :: "nat \<Rightarrow> int \<Rightarrow> real \<Rightarrow> real \<Rightarrow> double" where
  "round_nearest p emin overflow x =
     (if x = 0 then Fin 0
      else
        let u = 2 powi (binade emin \<bar>x\<bar> - int p);
            r = of_int (round_even (x / u)) * u
        in if overflow \<le> \<bar>r\<bar> then (if 0 < x then PInf else MInf) else Fin r)"

text \<open>
  \<^verbatim>\<open>double\<close> is binary64. \<^verbatim>\<open>long double\<close> is the extended format of the x87 unit, with
  a significand of 64 bits, as on the x86-64 systems that have an IPU3.
\<close>

definition double_overflow :: real where
  "double_overflow = 2 ^ 1024"

definition extended_overflow :: real where
  "extended_overflow = 2 ^ 16384"

definition round_double :: "real \<Rightarrow> double" where
  "round_double x = round_nearest 52 (- 1022) double_overflow x"

definition round_extended :: "real \<Rightarrow> double" where
  "round_extended x = round_nearest 63 (- 16382) extended_overflow x"

fun dround :: "double \<Rightarrow> double" where
  "dround (Fin x) = round_double x"
| "dround x = x"

fun ldround :: "double \<Rightarrow> double" where
  "ldround (Fin x) = round_extended x"
| "ldround x = x"

section \<open>Auto focus: \<^verbatim>\<open>src/ipa/ipu3/algorithms/af.cpp\<close>\<close>

text \<open>
  The table \<^verbatim>\<open>stats->af_raw_buffer.y_table\<close>, viewed as \<^verbatim>\<open>y_table_item_t[]\<close>, is a
  list of items with two 16-bit members; its length stands for the loop bound
  \<^verbatim>\<open>IPU3_UAPI_AF_Y_TABLE_MAX_SIZE / 4\<close>.
\<close>

definition MaxFocusSteps :: nat where
  "MaxFocusSteps = 1023"

definition MinSearchStep :: nat where
  "MinSearchStep = 5"

definition MaxChange :: real where
  "MaxChange = 0.8"

record y_table_item =
  y1_avg :: "16 word"
  y2_avg :: "16 word"

text \<open>
  The AF part of \<^verbatim>\<open>IPAContext\<close> (\<open>focus\<close>, \<open>maxVariance\<close>, \<open>stable\<close> of
  \<^verbatim>\<open>frameContext.af\<close>; \<open>start_x\<close>, \<open>start_y\<close> of \<^verbatim>\<open>configuration.af\<close>) together with
  the members of the \<^verbatim>\<open>Af\<close> object. The scan region start is kept at the 32 bits of the
  expression that computes it.
\<close>

record af_state =
  focus :: nat
  maxVariance :: real
  stable :: bool
  start_x :: "32 word"
  start_y :: "32 word"
  m_focus :: nat
  m_goodFocus :: nat
  m_currentVariance :: real
  m_ignoreFrame :: nat

text \<open>The constructor \<^verbatim>\<open>Af::Af()\<close> initialises three members; the others are arbitrary.\<close>

definition Af_init :: "af_state \<Rightarrow> af_state" where
  "Af_init st = st\<lparr>m_focus := 0, m_goodFocus := 0, m_currentVariance := 0\<rparr>"

text \<open>\<^verbatim>\<open>Af::configure\<close>: the return value and the new state.\<close>

definition Af_configure :: "af_state \<Rightarrow> 32 word \<Rightarrow> 32 word \<Rightarrow> int \<times> af_state" where
  "Af_configure st bds_width bds_height =
     (0, st\<lparr>focus := 0, maxVariance := 0, stable := False, m_ignoreFrame := 10,
            start_x := (bds_width div 2) - 64,
            start_y := (bds_height div 2) - 64\<rparr>)"

text \<open>
  First loop of \<^verbatim>\<open>Af::process\<close>: \<open>mean_loop items z tot\<close> returns \<open>(tot, z)\<close> at
  loop exit. The cell is added before it is tested, and \<open>z\<close> is not incremented on
  \<^verbatim>\<open>break\<close>.
\<close>

fun mean_loop :: "y_table_item list \<Rightarrow> nat \<Rightarrow> nat \<Rightarrow> nat \<times> nat" where
  "mean_loop [] z tot = (tot, z)"
| "mean_loop (it # rest) z tot =
     (let tot' = (tot + unat (y2_avg it)) mod 2 ^ 32
      in if y2_avg it = 0 then (tot', z) else mean_loop rest (Suc z) tot')"

text \<open>
  Second loop: \<open>var_loop items mean z var_sum\<close> returns \<open>(var_sum, z)\<close>. \<open>mean\<close> holds
  the integer quotient \<^verbatim>\<open>total / z\<close>, so every squared difference is an integer and
  the \<^verbatim>\<open>uint64_t\<close> accumulator is exact (the sums stay far below \<open>2 ^ 53\<close> for the
  hardware's table size).
\<close>

fun var_loop :: "y_table_item list \<Rightarrow> nat \<Rightarrow> nat \<Rightarrow> nat \<Rightarrow> nat \<times> nat" where
  "var_loop [] mean z var_sum = (var_sum, z)"
| "var_loop (it # rest) mean z var_sum =
     (if y2_avg it = 0 then (var_sum, z)
      else var_loop rest mean (Suc z)
             (var_sum + nat ((int (unat (y2_avg it)) - int mean) ^ 2)))"

text \<open>
  The two-mode state machine, lines 187 to 234, run on a state whose
  \<open>currentVariance_\<close> has been set. In the stable branch \<^verbatim>\<open>diff_var\<close> is declared
  \<^verbatim>\<open>const uint32_t\<close>: the absolute difference is truncated. The quotient
  \<^verbatim>\<open>diff_var / maxVariance\<close> with \<open>maxVariance = 0\<close> is \<open>+inf\<close> for a positive
  \<open>diff_var\<close> (greater than \<open>MaxChange\<close>) and NaN for \<open>diff_var = 0\<close> (every comparison
  with NaN is false).
\<close>

definition Af_state_machine :: "af_state \<Rightarrow> fault + af_state" where
  "Af_state_machine st =
     (if stable st then
        (let a = \<bar>m_currentVariance st - maxVariance st\<bar> in
         if 2 ^ 32 \<le> a then Inl ConversionOutOfRange
         else
           let diff_var = nat \<lfloor>a\<rfloor>;
               over = (if maxVariance st = 0 then 0 < diff_var
                       else MaxChange < real diff_var / maxVariance st)
           in if over then
                (if m_ignoreFrame st = 0 then
                   Inr (st\<lparr>maxVariance := 0, focus := 0, m_focus := 0,
                            stable := False, m_ignoreFrame := 60\<rparr>)
                 else Inr (st\<lparr>m_ignoreFrame := m_ignoreFrame st - 1\<rparr>))
              else Inr (st\<lparr>m_ignoreFrame := 10\<rparr>))
      else
        (if m_ignoreFrame st \<noteq> 0 then Inr (st\<lparr>m_ignoreFrame := m_ignoreFrame st - 1\<rparr>)
         else
           let st1 = (if maxVariance st < m_currentVariance st
                      then st\<lparr>maxVariance := m_currentVariance st, m_goodFocus := m_focus st\<rparr>
                      else st)
           in if MaxFocusSteps < m_focus st1 then
                Inr (st1\<lparr>stable := True, focus := m_goodFocus st1\<rparr>)
              else
                let f = (m_focus st1 + MinSearchStep) mod 2 ^ 32
                in Inr (st1\<lparr>m_focus := f, focus := f\<rparr>)))"

text \<open>
  The frame's score as the source computes it, for a table whose first cell is not zero.
\<close>

definition af_count :: "y_table_item list \<Rightarrow> nat" where
  "af_count y_table = snd (mean_loop y_table 0 0)"

definition af_variance :: "y_table_item list \<Rightarrow> real" where
  "af_variance y_table =
     (let (tot, z) = mean_loop y_table 0 0;
          (var_sum, z') = var_loop y_table (tot div z) 0 0
      in real var_sum / real z')"

text \<open>
  \<^verbatim>\<open>Af::process\<close>. \<^verbatim>\<open>mean = total / z\<close> divides two integers (\<^verbatim>\<open>uint32_t\<close> by
  \<^verbatim>\<open>int\<close>): with \<open>z = 0\<close> the behaviour is undefined (a trap on the usual targets).
\<close>

definition Af_process :: "af_state \<Rightarrow> y_table_item list \<Rightarrow> fault + af_state" where
  "Af_process st y_table =
     (let (tot, z) = mean_loop y_table 0 0 in
      if z = 0 then Inl DivisionByZero
      else
        let mean = tot div z;
            (var_sum, z') = var_loop y_table mean 0 0
        in Af_state_machine (st\<lparr>m_currentVariance := real var_sum / real z'\<rparr>))"

text \<open>A sequence of frames: the first error ends the run.\<close>

fun Af_run :: "af_state \<Rightarrow> y_table_item list list \<Rightarrow> fault + af_state" where
  "Af_run st [] = Inr st"
| "Af_run st (t # ts) =
     (case Af_process st t of Inl e \<Rightarrow> Inl e | Inr st' \<Rightarrow> Af_run st' ts)"

section \<open>Auto exposure and gain: \<^verbatim>\<open>src/ipa/ipu3/algorithms/agc.cpp\<close>\<close>

text \<open>
  \<^verbatim>\<open>utils::Duration\<close> is a \<^verbatim>\<open>double\<close> count of nanoseconds: \<open>real\<close> for the limits of
  the session, \<open>double\<close> for the members that the controller computes.
\<close>

definition kMinAnalogueGain :: real where
  "kMinAnalogueGain = 1.0"

definition kMaxAnalogueGain :: real where
  "kMaxAnalogueGain = 8.0"

definition kMaxShutterSpeed :: real where
  "kMaxShutterSpeed = 60 * 1000000"

definition knumHistogramBins :: nat where
  "knumHistogramBins = 256"

definition kEvGainTarget :: real where
  "kEvGainTarget = 0.5"

definition kNumStartupFrames :: nat where
  "kNumStartupFrames = 10"

definition kRelativeLuminanceTarget :: real where
  "kRelativeLuminanceTarget = 0.16"

text \<open>
  The members of \<^verbatim>\<open>ipu3_uapi_awb_set_item\<close> and \<^verbatim>\<open>ipu3_uapi_grid_config\<close> that the
  source reads. The buffer \<^verbatim>\<open>awb_raw_buffer.meta_data\<close> is indexed by cell, as the
  source indexes it; it is a function from the index to the cell, which leaves the
  buffer's size (a constant of a kernel header) out of the model.
\<close>

record ipu3_uapi_awb_set_item =
  Gr_avg :: "8 word"
  R_avg :: "8 word"
  B_avg :: "8 word"
  Gb_avg :: "8 word"

record ipu3_uapi_grid_config =
  width :: nat
  height :: nat

type_synonym awb_raw_buffer = "nat \<Rightarrow> ipu3_uapi_awb_set_item"

text \<open>
  \<^verbatim>\<open>context.configuration\<close> (\<open>grid.bdsGrid\<close>, \<open>grid.stride\<close> and the \<open>agc\<close> limits),
  \<^verbatim>\<open>configInfo.sensorInfo\<close>, \<^verbatim>\<open>context.frameContext\<close> (\<open>agc\<close>, \<open>sensor\<close>, \<open>awb.gains\<close>)
  and the members of the \<^verbatim>\<open>Agc\<close> object.
\<close>

record IPASessionConfiguration =
  grid_bdsGrid :: ipu3_uapi_grid_config
  grid_stride :: nat
  agc_minShutterSpeed :: real
  agc_maxShutterSpeed :: real
  agc_minAnalogueGain :: real
  agc_maxAnalogueGain :: real

record IPACameraSensorInfo =
  lineLength :: nat
  pixelRate :: nat

record IPAFrameContext =
  agc_exposure :: nat
  agc_gain :: double
  sensor_exposure :: nat
  sensor_gain :: real
  awb_gains_red :: real
  awb_gains_green :: real
  awb_gains_blue :: real

record agc_state =
  m_frameCount :: nat
  m_lineDuration :: double
  m_minShutterSpeed :: real
  m_maxShutterSpeed :: real
  m_minAnalogueGain :: real
  m_maxAnalogueGain :: real
  m_filteredExposure :: double
  m_currentExposure :: double
  m_stride :: nat


text \<open>
  The line duration \<^verbatim>\<open>lineLength * 1.0s / pixelRate\<close>. The literal \<^verbatim>\<open>1.0s\<close> is a
  \<^verbatim>\<open>std::chrono::duration<long double>\<close> of seconds: the product with the line length
  is exact, the quotient is a \<^verbatim>\<open>long double\<close>, and the assignment to \<^verbatim>\<open>lineDuration_\<close>,
  a \<^verbatim>\<open>double\<close> count of nanoseconds, multiplies by \<open>10\<^sup>9\<close> in \<^verbatim>\<open>long double\<close> and
  converts the product to \<^verbatim>\<open>double\<close>. The line duration is infinite when the pixel rate
  is zero and the line length is not. And a duration divided by the line duration and
  assigned to the \<^verbatim>\<open>uint32_t\<close> exposure, as in
  \<^verbatim>\<open>frameContext.agc.exposure = shutterTime / lineDuration_\<close>: the quotient of two
  \<^verbatim>\<open>double\<close> values is rounded and then truncated.
\<close>

definition sensor_lineDuration :: "IPACameraSensorInfo \<Rightarrow> double" where
  "sensor_lineDuration info =
     dround (ldround (dmul (ldround (ddiv (Fin (real (lineLength info)))
                                          (Fin (real (pixelRate info)))))
                           (Fin 1000000000)))"

definition duration_lines :: "double \<Rightarrow> double \<Rightarrow> fault + nat" where
  "duration_lines t lineDuration = to_uint32 (dround (ddiv t lineDuration))"

text \<open>
  \<^verbatim>\<open>Agc::configure\<close>: the return value, the object and the frame context. The only
  path through the function ends in \<^verbatim>\<open>return 0\<close>; what can end the call before is
  the conversion of the quotient \<^verbatim>\<open>minShutterSpeed_ / lineDuration_\<close> to the exposure.
\<close>

definition Agc_configure ::
  "agc_state \<Rightarrow> IPASessionConfiguration \<Rightarrow> IPAFrameContext \<Rightarrow> IPACameraSensorInfo \<Rightarrow>
   fault + (int \<times> agc_state \<times> IPAFrameContext)" where
  "Agc_configure agc cfg fc info =
     (let agc' = agc\<lparr>m_stride := grid_stride cfg,
                     m_lineDuration := sensor_lineDuration info,
                     m_minShutterSpeed := agc_minShutterSpeed cfg,
                     m_maxShutterSpeed := min (agc_maxShutterSpeed cfg) kMaxShutterSpeed,
                     m_minAnalogueGain := max (agc_minAnalogueGain cfg) kMinAnalogueGain,
                     m_maxAnalogueGain := min (agc_maxAnalogueGain cfg) kMaxAnalogueGain\<rparr>
      in case duration_lines (Fin (m_minShutterSpeed agc')) (m_lineDuration agc') of
           Inl e \<Rightarrow> Inl e
         | Inr lines \<Rightarrow>
             Inr (0, agc', fc\<lparr>agc_gain := Fin (m_minAnalogueGain agc'), agc_exposure := lines\<rparr>))"

text \<open>
  The cell at \<^verbatim>\<open>cellY * stride_ + cellX\<close>, computed in \<^verbatim>\<open>uint32_t\<close>.
\<close>

definition cell_at :: "awb_raw_buffer \<Rightarrow> nat \<Rightarrow> nat \<Rightarrow> nat \<Rightarrow> ipu3_uapi_awb_set_item" where
  "cell_at stats stride cellY cellX = stats ((cellY * stride + cellX) mod 2 ^ 32)"

text \<open>The histogram that \<^verbatim>\<open>Agc::measureBrightness\<close> fills, one count per cell.\<close>

definition brightness_hist ::
  "awb_raw_buffer \<Rightarrow> ipu3_uapi_grid_config \<Rightarrow> nat \<Rightarrow> nat list" where
  "brightness_hist stats grid stride =
     fold (\<lambda>cellY. fold (\<lambda>cellX hist.
             let cell = cell_at stats stride cellY cellX;
                 gr = unat (Gr_avg cell);
                 gb = unat (Gb_avg cell)
             in hist[(gr + gb) div 2 := (hist ! ((gr + gb) div 2) + 1) mod 2 ^ 32])
           [0..<width grid])
       [0..<height grid] (replicate knumHistogramBins 0)"

text \<open>
  Modelled from the spec: \<^verbatim>\<open>Histogram::interQuantileMean\<close> of \<^verbatim>\<open>libipa/histogram.h\<close>,
  which is not part of the sources at hand. The spec has it as "the count-weighted mean
  bin index over the half-open cumulative range [lo, hi)" and asks that an all-zero
  histogram give the midpoint or 0; here it gives 0. \<open>iqm_sums bins b cum lo hi\<close> returns
  the sum of the bin indices weighted by the share of each bin in the cumulative range
  \<open>[lo, hi)\<close>, and the sum of the weights.
\<close>

fun iqm_sums :: "nat list \<Rightarrow> nat \<Rightarrow> real \<Rightarrow> real \<Rightarrow> real \<Rightarrow> real \<times> real" where
  "iqm_sums [] b cum lo hi = (0, 0)"
| "iqm_sums (c # cs) b cum lo hi =
     (let w = max 0 (min (cum + real c) hi - max cum lo);
          (sb, sw) = iqm_sums cs (Suc b) (cum + real c) lo hi
      in (real b * w + sb, w + sw))"

definition interQuantileMean :: "nat list \<Rightarrow> real \<Rightarrow> real \<Rightarrow> real" where
  "interQuantileMean bins lowQuantile highQuantile =
     (let n = real (sum_list bins);
          (sb, sw) = iqm_sums bins 0 0 (lowQuantile * n) (highQuantile * n)
      in if sw = 0 then 0 else sb / sw)"

definition measureBrightness ::
  "awb_raw_buffer \<Rightarrow> ipu3_uapi_grid_config \<Rightarrow> nat \<Rightarrow> real" where
  "measureBrightness stats grid stride =
     interQuantileMean (brightness_hist stats grid stride) 0.98 1.0"

text \<open>\<^verbatim>\<open>Agc::filterExposure\<close>.\<close>

definition filterExposure :: "agc_state \<Rightarrow> agc_state" where
  "filterExposure agc =
     (let speed = 0.2;
          speed = (if m_frameCount agc < kNumStartupFrames then 1.0 else speed)
      in if deq (m_filteredExposure agc) (Fin 0) then
           agc\<lparr>m_filteredExposure := m_currentExposure agc\<rparr>
         else
           let speed = (if dless (m_filteredExposure agc) (dmul (Fin 1.2) (m_currentExposure agc)) \<and>
                           dless (dmul (Fin 0.8) (m_currentExposure agc)) (m_filteredExposure agc)
                        then sqrt speed else speed)
           in agc\<lparr>m_filteredExposure :=
                    dadd (dmul (Fin speed) (m_currentExposure agc))
                         (dmul (m_filteredExposure agc) (Fin (1.0 - speed)))\<rparr>)"

text \<open>
  \<^verbatim>\<open>Agc::computeExposure\<close>. The gain estimate of the histogram can be infinite, and
  with it the target before it is clamped; \<^verbatim>\<open>std::min\<close> and \<^verbatim>\<open>std::clamp\<close> then return
  the finite limit. The call ends before its last two assignments only when the quotient
  \<^verbatim>\<open>shutterTime / lineDuration_\<close> has no \<^verbatim>\<open>uint32_t\<close> value.
\<close>

definition computeExposure ::
  "agc_state \<Rightarrow> IPAFrameContext \<Rightarrow> double \<Rightarrow> double \<Rightarrow> fault + (agc_state \<times> IPAFrameContext)" where
  "computeExposure agc frameContext yGain iqMeanGain =
     (let exposure = sensor_exposure frameContext;
          analogueGain = sensor_gain frameContext;
          evGain = max_std yGain iqMeanGain;
          currentShutter = dmul (Fin (real exposure)) (m_lineDuration agc);
          effectiveExposureValue = dmul currentShutter (Fin analogueGain);
          maxTotalExposure = Fin (m_maxShutterSpeed agc * m_maxAnalogueGain agc);
          agc1 = agc\<lparr>m_currentExposure :=
                       min_std (dmul effectiveExposureValue evGain) maxTotalExposure\<rparr>;
          agc2 = filterExposure agc1;
          exposureValue = m_filteredExposure agc2;
          shutterTime = clamp_std (ddiv exposureValue (Fin (m_minAnalogueGain agc2)))
                          (Fin (m_minShutterSpeed agc2)) (Fin (m_maxShutterSpeed agc2));
          stepGain = clamp_std (ddiv exposureValue shutterTime)
                       (Fin (m_minAnalogueGain agc2)) (Fin (m_maxAnalogueGain agc2))
      in case duration_lines shutterTime (m_lineDuration agc2) of
           Inl e \<Rightarrow> Inl e
         | Inr lines \<Rightarrow>
             Inr (agc2, frameContext\<lparr>agc_exposure := lines, agc_gain := stepGain\<rparr>))"

text \<open>
  The three sums of \<^verbatim>\<open>Agc::estimateLuminance\<close>, \<open>(redSum, greenSum, blueSum)\<close>, and the
  function itself. \<^verbatim>\<open>G_avg\<close> is the \<^verbatim>\<open>uint8_t\<close> mean of two bytes, at most 255. With a
  grid that has no cell the sums are zero and the result, zero divided by zero, is not a
  number.
\<close>

definition channel_sums ::
  "awb_raw_buffer \<Rightarrow> ipu3_uapi_grid_config \<Rightarrow> nat \<Rightarrow> double \<Rightarrow> double \<times> double \<times> double"
  where
  "channel_sums stats grid stride gain =
     fold (\<lambda>cellY. fold (\<lambda>cellX (redSum, greenSum, blueSum).
             let cell = cell_at stats stride cellY cellX;
                 G_avg = (unat (Gr_avg cell) + unat (Gb_avg cell)) div 2
             in (dadd redSum (min_std (dmul (Fin (real (unat (R_avg cell)))) gain) (Fin 255.0)),
                 dadd greenSum (min_std (dmul (Fin (real G_avg)) gain) (Fin 255.0)),
                 dadd blueSum (min_std (dmul (Fin (real (unat (B_avg cell)))) gain) (Fin 255.0))))
           [0..<width grid])
       [0..<height grid] (Fin 0, Fin 0, Fin 0)"

definition estimateLuminance ::
  "IPAFrameContext \<Rightarrow> ipu3_uapi_grid_config \<Rightarrow> awb_raw_buffer \<Rightarrow> nat \<Rightarrow> double \<Rightarrow> double"
  where
  "estimateLuminance frameContext grid stats stride gain =
     (let (redSum, greenSum, blueSum) = channel_sums stats grid stride gain;
          ySum = dadd (dadd (dmul (dmul redSum (Fin (awb_gains_red frameContext))) (Fin 0.299))
                            (dmul (dmul greenSum (Fin (awb_gains_green frameContext))) (Fin 0.587)))
                      (dmul (dmul blueSum (Fin (awb_gains_blue frameContext))) (Fin 0.114))
      in ddiv (ddiv ySum (Fin (real (height grid * width grid)))) (Fin 255))"

text \<open>
  The loop of \<^verbatim>\<open>Agc::process\<close>: \<open>yGain_loop n\<close> runs at most \<open>n\<close> iterations from the
  running estimate \<open>yGain\<close>. When the luminance is not a number, or when
  \<open>yValue + 0.001\<close> is zero and the quotient infinite, \<^verbatim>\<open>std::min(10.0, ...)\<close> is 10.
\<close>

fun yGain_loop ::
  "nat \<Rightarrow> IPAFrameContext \<Rightarrow> ipu3_uapi_grid_config \<Rightarrow> awb_raw_buffer \<Rightarrow> nat \<Rightarrow> double \<Rightarrow>
   double" where
  "yGain_loop 0 frameContext grid stats stride yGain = yGain"
| "yGain_loop (Suc n) frameContext grid stats stride yGain =
     (let yValue = estimateLuminance frameContext grid stats stride yGain;
          extraGain = min_std (Fin 10.0)
                        (ddiv (Fin kRelativeLuminanceTarget) (dadd yValue (Fin 0.001)));
          yGain' = dmul yGain extraGain
      in if dless extraGain (Fin 1.01) then yGain'
         else yGain_loop n frameContext grid stats stride yGain')"

text \<open>
  \<^verbatim>\<open>Agc::process\<close>. Line 324 divides by the brightness measurement itself: when it is
  zero the quotient \<open>iqMeanGain\<close> is an infinity and the call goes on. The frame counter
  is a \<^verbatim>\<open>uint64_t\<close>.
\<close>

definition Agc_process ::
  "agc_state \<Rightarrow> IPASessionConfiguration \<Rightarrow> IPAFrameContext \<Rightarrow> awb_raw_buffer \<Rightarrow>
   fault + (agc_state \<times> IPAFrameContext)" where
  "Agc_process agc cfg frameContext stats =
     (let iqMean = measureBrightness stats (grid_bdsGrid cfg) (m_stride agc);
          iqMeanGain = ddiv (Fin (kEvGainTarget * real knumHistogramBins)) (Fin iqMean);
          yGain = yGain_loop 8 frameContext (grid_bdsGrid cfg) stats (m_stride agc) (Fin 1.0)
      in case computeExposure agc frameContext yGain iqMeanGain of
           Inl e \<Rightarrow> Inl e
         | Inr (agc', frameContext') \<Rightarrow>
             Inr (agc'\<lparr>m_frameCount := (m_frameCount agc' + 1) mod 2 ^ 64\<rparr>,
                  frameContext'))"

text \<open>
  What the rest of the pipeline hands over with each frame: the statistics, the exposure
  and gain the sensor applied, and the white balance gains. \<open>Agc_run\<close> stores them in
  the frame context and calls \<open>Agc_process\<close>, frame after frame.
\<close>

record agc_frame =
  frame_stats :: awb_raw_buffer
  frame_exposure :: nat
  frame_gain :: real
  frame_awb_red :: real
  frame_awb_green :: real
  frame_awb_blue :: real

definition frame_context :: "IPAFrameContext \<Rightarrow> agc_frame \<Rightarrow> IPAFrameContext" where
  "frame_context frameContext f =
     frameContext\<lparr>sensor_exposure := frame_exposure f, sensor_gain := frame_gain f,
       awb_gains_red := frame_awb_red f, awb_gains_green := frame_awb_green f,
       awb_gains_blue := frame_awb_blue f\<rparr>"




section \<open>Example inputs\<close>

text \<open>
  Auto focus: a table of two cells \<open>2 * w + 1\<close> and \<open>1\<close>, whose score is \<open>w\<^sup>2\<close>; a scan
  of 206 such tables whose scores peak at the frame of index 30; the state at the start of
  a scan, after \<open>configure\<close>, and after the ten frames of the first ignore budget; the
  state before the last call of a scan in which no frame scored above 0; a stable state and
  a table of score \<open>15 / 8\<close>.
\<close>

definition example_item :: "nat \<Rightarrow> y_table_item" where
  "example_item v = \<lparr>y1_avg = 0, y2_avg = of_nat v\<rparr>"

definition example_table :: "nat \<Rightarrow> y_table_item list" where
  "example_table w = [example_item (2 * w + 1), example_item 1]"

definition example_scan :: "y_table_item list list" where
  "example_scan = map (\<lambda>i. example_table (if i \<le> 30 then 1000 + i else 1060 - i)) [0..<206]"

definition example_start :: af_state where
  "example_start = \<lparr>focus = 0, maxVariance = 0, stable = False, start_x = 0, start_y = 0,
     m_focus = 0, m_goodFocus = 0, m_currentVariance = 0, m_ignoreFrame = 0\<rparr>"

definition example_configured :: af_state where
  "example_configured = snd (Af_configure (Af_init example_start) 1280 720)"

definition example_scanning :: af_state where
  "example_scanning = example_configured\<lparr>m_currentVariance := 0, m_ignoreFrame := 0\<rparr>"

definition example_scan_end :: af_state where
  "example_scan_end = example_scanning\<lparr>m_focus := 1025, focus := 1025\<rparr>"

definition example_stable :: af_state where
  "example_stable = \<lparr>focus = 150, maxVariance = 1, stable = True, start_x = 576, start_y = 296,
     m_focus = 1025, m_goodFocus = 150, m_currentVariance = 1, m_ignoreFrame = 0\<rparr>"

definition example_blur :: "y_table_item list" where
  "example_blur = map example_item [4, 3, 2, 2, 1, 1, 1, 1]"

text \<open>
  Auto exposure: a controller after startup; a session of two by two cells with a line of
  20000 ns, and the same session with an empty grid or a shorter maximum shutter time; a
  sensor whose line duration is not a binary fraction and one that reports a pixel rate of
  zero; a new controller; buffers of green, of grey and of black cells, and the frames
  that carry them.
\<close>

definition example_agc :: agc_state where
  "example_agc = \<lparr>m_frameCount = 10, m_lineDuration = Fin 20000, m_minShutterSpeed = 100000,
     m_maxShutterSpeed = 60000000, m_minAnalogueGain = 1, m_maxAnalogueGain = 8,
     m_filteredExposure = Fin 100, m_currentExposure = Fin 81, m_stride = 2\<rparr>"

definition example_cfg :: IPASessionConfiguration where
  "example_cfg = \<lparr>grid_bdsGrid = \<lparr>width = 2, height = 2\<rparr>, grid_stride = 2,
     agc_minShutterSpeed = 100000, agc_maxShutterSpeed = 100000000,
     agc_minAnalogueGain = 0.5, agc_maxAnalogueGain = 16\<rparr>"

definition example_empty_cfg :: IPASessionConfiguration where
  "example_empty_cfg = example_cfg\<lparr>grid_bdsGrid := \<lparr>width = 0, height = 0\<rparr>, grid_stride := 0\<rparr>"

definition example_info :: IPACameraSensorInfo where
  "example_info = \<lparr>lineLength = 2000, pixelRate = 100000000\<rparr>"

definition example_fast_info :: IPACameraSensorInfo where
  "example_fast_info = \<lparr>lineLength = 1000, pixelRate = 360000000\<rparr>"

definition example_no_rate :: IPACameraSensorInfo where
  "example_no_rate = \<lparr>lineLength = 2000, pixelRate = 0\<rparr>"

definition example_new_agc :: agc_state where
  "example_new_agc = \<lparr>m_frameCount = 0, m_lineDuration = Fin 0, m_minShutterSpeed = 0,
     m_maxShutterSpeed = 0, m_minAnalogueGain = 0, m_maxAnalogueGain = 0,
     m_filteredExposure = Fin 0, m_currentExposure = Fin 0, m_stride = 0\<rparr>"

definition example_context :: IPAFrameContext where
  "example_context = \<lparr>agc_exposure = 0, agc_gain = Fin 0, sensor_exposure = 5, sensor_gain = 1,
     awb_gains_red = 1, awb_gains_green = 1, awb_gains_blue = 1\<rparr>"

definition example_green_cell :: awb_raw_buffer where
  "example_green_cell = (\<lambda>i. \<lparr>Gr_avg = 128, R_avg = 0, B_avg = 0, Gb_avg = 128\<rparr>)"

definition example_one_cell :: ipu3_uapi_grid_config where
  "example_one_cell = \<lparr>width = 1, height = 1\<rparr>"

definition example_grey :: awb_raw_buffer where
  "example_grey = (\<lambda>i. \<lparr>Gr_avg = 128, R_avg = 128, B_avg = 128, Gb_avg = 128\<rparr>)"

definition example_black :: awb_raw_buffer where
  "example_black = (\<lambda>i. \<lparr>Gr_avg = 0, R_avg = 0, B_avg = 0, Gb_avg = 0\<rparr>)"

definition example_frame :: agc_frame where
  "example_frame = \<lparr>frame_stats = example_grey, frame_exposure = 3000, frame_gain = 8,
     frame_awb_red = 1, frame_awb_green = 1, frame_awb_blue = 1\<rparr>"

definition example_black_frame :: agc_frame where
  "example_black_frame = example_frame\<lparr>frame_stats := example_black\<rparr>"




text \<open>The controller of these sessions after \<open>n\<close> frames.\<close>

definition example_session :: "nat \<Rightarrow> real \<Rightarrow> real \<Rightarrow> real \<Rightarrow> agc_state" where
  "example_session n maxShutter filtered current =
     \<lparr>m_frameCount = n, m_lineDuration = Fin 20000, m_minShutterSpeed = 100000,
      m_maxShutterSpeed = maxShutter, m_minAnalogueGain = 1, m_maxAnalogueGain = 8,
      m_filteredExposure = Fin filtered, m_currentExposure = Fin current, m_stride = 2\<rparr>"

section \<open>Predicates of the proofs\<close>

text \<open>
  What holds after \<open>n\<close> scored frames of a scan whose scores peak at the frame of index
  \<open>k\<close>: the best variance is below the peak's until the peak has been scored, and is the
  peak's afterwards.
\<close>

definition scan_inv :: "y_table_item list list \<Rightarrow> nat \<Rightarrow> nat \<Rightarrow> af_state \<Rightarrow> bool" where
  "scan_inv tables k n s \<longleftrightarrow>
     \<not> stable s \<and> m_ignoreFrame s = 0 \<and> m_focus s = MinSearchStep * n \<and>
     (n \<le> k \<longrightarrow> maxVariance s < af_variance (tables ! k)) \<and>
     (k < n \<longrightarrow> maxVariance s = af_variance (tables ! k) \<and> m_goodFocus s = MinSearchStep * k)"

text \<open>
  The states of the auto focus that a run reaches: the object is constructed and
  configured, and then processes frames and may be configured again.
\<close>

inductive af_reachable :: "af_state \<Rightarrow> bool" where
  configured: "af_reachable (snd (Af_configure (Af_init st) w h))"
| reconfigured: "af_reachable st \<Longrightarrow> af_reachable (snd (Af_configure st w h))"
| processed: "af_reachable st \<Longrightarrow> Af_process st t = Inr st' \<Longrightarrow> af_reachable st'"






section \<open>Auto focus: lemmas\<close>

lemma mean_loop_z_mono: "z \<le> snd (mean_loop items z tot)"
proof (induction items arbitrary: z tot)
  case Nil
  show ?case by simp
next
  case (Cons it rest)
  have "Suc z \<le> snd (mean_loop rest (Suc z) ((tot + unat (y2_avg it)) mod 2 ^ 32))"
    by (rule Cons.IH)
  then show ?case by (simp add: Let_def)
qed

lemma var_loop_z: "snd (var_loop items mean z vs) = snd (mean_loop items z tot)"
  by (induction items arbitrary: z vs tot) (auto simp: Let_def)

lemma Af_process_zero: "af_count y_table = 0 \<Longrightarrow> Af_process st y_table = Inl DivisionByZero"
  by (auto simp add: Af_process_def af_count_def split: prod.splits)

lemma Af_process_score:
  "af_count y_table \<noteq> 0 \<Longrightarrow>
   Af_process st y_table = Af_state_machine (st\<lparr>m_currentVariance := af_variance y_table\<rparr>)"
  by (auto simp add: Af_process_def af_count_def af_variance_def Let_def split: prod.splits)

lemma af_count_zero_iff: "af_count y_table = 0 \<longleftrightarrow> (y_table = [] \<or> y2_avg (hd y_table) = 0)"
proof (cases y_table)
  case Nil
  then show ?thesis by (simp add: af_count_def)
next
  case (Cons it rest)
  have "Suc 0 \<le> snd (mean_loop rest (Suc 0) t)" for t
    by (rule mean_loop_z_mono)
  then have "snd (mean_loop rest (Suc 0) t) \<noteq> 0" for t
    by (metis Suc_le_lessD less_numeral_extra(3))
  with Cons show ?thesis by (simp add: af_count_def Let_def)
qed

lemma all_zero_count: "\<forall>it \<in> set y_table. y2_avg it = 0 \<Longrightarrow> af_count y_table = 0"
  by (cases y_table) (simp_all add: af_count_zero_iff)

lemma scan_advance:
  assumes "\<not> stable st" "m_ignoreFrame st = 0" "m_focus st \<le> MaxFocusSteps"
  shows "Af_state_machine (st\<lparr>m_currentVariance := v\<rparr>) =
         Inr (st\<lparr>m_currentVariance := v,
                 maxVariance := max (maxVariance st) v,
                 m_goodFocus := (if maxVariance st < v then m_focus st else m_goodFocus st),
                 m_focus := m_focus st + MinSearchStep,
                 focus := m_focus st + MinSearchStep\<rparr>)"
  using assms by (simp add: Af_state_machine_def Let_def MaxFocusSteps_def MinSearchStep_def max_def)

lemma scan_finish:
  assumes "\<not> stable st" "m_ignoreFrame st = 0" "MaxFocusSteps < m_focus st"
  shows "Af_state_machine (st\<lparr>m_currentVariance := v\<rparr>) =
         Inr (st\<lparr>m_currentVariance := v,
                 maxVariance := max (maxVariance st) v,
                 m_goodFocus := (if maxVariance st < v then m_focus st else m_goodFocus st),
                 stable := True,
                 focus := (if maxVariance st < v then m_focus st else m_goodFocus st)\<rparr>)"
  using assms by (simp add: Af_state_machine_def Let_def max_def)

lemma Af_run_snoc:
  "Af_run st (ts @ [t]) = (case Af_run st ts of Inl e \<Rightarrow> Inl e | Inr s \<Rightarrow> Af_process s t)"
  by (induction ts arbitrary: st) (auto split: sum.splits)

lemma af_variance_nonneg: "0 \<le> af_variance t"
  by (simp add: af_variance_def split: prod.splits)

lemma scan_inv_step:
  assumes inv: "scan_inv tables k n s"
    and n: "n < length tables"
    and top: "\<forall>i < length tables. i \<noteq> k \<longrightarrow> af_variance (tables ! i) < af_variance (tables ! k)"
    and adv: "MinSearchStep * n \<le> MaxFocusSteps"
    and scored: "af_count (tables ! n) \<noteq> 0"
  shows "\<exists>s'. Af_process s (tables ! n) = Inr s' \<and> scan_inv tables k (Suc n) s' \<and>
           m_focus s' = m_focus s + MinSearchStep \<and> focus s' = m_focus s' \<and>
           maxVariance s' = max (maxVariance s) (af_variance (tables ! n)) \<and>
           m_goodFocus s' = (if maxVariance s < af_variance (tables ! n) then m_focus s
                             else m_goodFocus s)"
proof -
  let ?v = "af_variance (tables ! n)"
  let ?s' = "s\<lparr>m_currentVariance := ?v,
                 maxVariance := max (maxVariance s) ?v,
                 m_goodFocus := (if maxVariance s < ?v then m_focus s else m_goodFocus s),
                 m_focus := m_focus s + MinSearchStep,
                 focus := m_focus s + MinSearchStep\<rparr>"
  from inv have s: "\<not> stable s" "m_ignoreFrame s = 0" "m_focus s = MinSearchStep * n"
    by (simp_all add: scan_inv_def)
  from s adv have le: "m_focus s \<le> MaxFocusSteps" by simp
  have run: "Af_process s (tables ! n) = Inr ?s'"
    using scored s(1,2) le by (simp add: Af_process_score scan_advance)
  have "scan_inv tables k (Suc n) ?s'"
  proof (cases "n < k")
    case True
    with top n have "?v < af_variance (tables ! k)" by simp
    moreover from inv True have "maxVariance s < af_variance (tables ! k)"
      by (simp add: scan_inv_def)
    ultimately show ?thesis using True s by (simp add: scan_inv_def)
  next
    case False
    show ?thesis
    proof (cases "n = k")
      case True
      with inv have "maxVariance s < ?v" by (simp add: scan_inv_def)
      with True s show ?thesis by (simp add: scan_inv_def max_def)
    next
      case neq: False
      with False have kn: "k < n" by simp
      with inv have m: "maxVariance s = af_variance (tables ! k)"
        "m_goodFocus s = MinSearchStep * k" by (simp_all add: scan_inv_def)
      from top n neq have "?v < af_variance (tables ! k)" by simp
      with m kn s show ?thesis by (simp add: scan_inv_def max_def)
    qed
  qed
  with run show ?thesis by simp
qed

lemma scan_prefix:
  assumes start: "\<not> stable st" "m_ignoreFrame st = 0" "m_focus st = 0" "maxVariance st = 0"
    and pos: "0 < af_variance (tables ! k)"
    and top: "\<forall>i < length tables. i \<noteq> k \<longrightarrow> af_variance (tables ! i) < af_variance (tables ! k)"
    and scored: "\<forall>t \<in> set tables. af_count t \<noteq> 0"
    and n: "n \<le> length tables" "MinSearchStep * n \<le> MaxFocusSteps + MinSearchStep"
  shows "\<exists>s. Af_run st (take n tables) = Inr s \<and> scan_inv tables k n s"
  using n
proof (induction n)
  case 0
  from start pos show ?case by (simp add: scan_inv_def)
next
  case (Suc n)
  then have n: "n < length tables" and adv: "MinSearchStep * n \<le> MaxFocusSteps"
    by (simp_all add: MinSearchStep_def)
  from Suc obtain s where s: "Af_run st (take n tables) = Inr s" "scan_inv tables k n s"
    by (auto simp: MinSearchStep_def)
  from n scored have "af_count (tables ! n) \<noteq> 0" by simp
  from scan_inv_step [OF s(2) n top adv this]
  obtain s' where "Af_process s (tables ! n) = Inr s'" "scan_inv tables k (Suc n) s'"
    by blast
  with s(1) n show ?case
    by (simp add: take_Suc_conv_app_nth Af_run_snoc)
qed

lemma unat_example: "v < 65536 \<Longrightarrow> unat (of_nat v :: 16 word) = v"
  by (simp add: unat_of_nat)

lemma example_item_nonzero: "0 < v \<Longrightarrow> v < 65536 \<Longrightarrow> y2_avg (example_item v) \<noteq> 0"
  using unat_example [of v] by (auto simp: example_item_def)

lemma example_item_value: "v < 65536 \<Longrightarrow> unat (y2_avg (example_item v)) = v"
  by (simp add: example_item_def unat_example)

lemma example_table_count: 
  assumes "w < 30000" shows "af_count (example_table w) = 2"
proof -
  have "y2_avg (example_item (2 * w + 1)) \<noteq> 0" "y2_avg (example_item 1) \<noteq> 0"
    using assms by (simp_all add: example_item_nonzero)
  then show ?thesis
    by (simp add: af_count_def example_table_def Let_def)
qed

lemma example_table_variance:
  assumes "w < 30000"
  shows "af_variance (example_table w) = (real w)\<^sup>2"
proof -
  have nz: "y2_avg (example_item (2 * w + 1)) \<noteq> 0" "y2_avg (example_item 1) \<noteq> 0"
    using assms by (simp_all add: example_item_nonzero)
  have u: "unat (y2_avg (example_item (2 * w + 1))) = 2 * w + 1"
    "unat (y2_avg (example_item 1)) = 1"
    using assms by (simp_all add: example_item_value)
  have ml: "mean_loop (example_table w) 0 0 = (2 * w + 2, 2)"
    using assms nz u by (simp add: example_table_def Let_def)
  have sq: "nat ((int (2 * w + 1) - int (w + 1))\<^sup>2) = w\<^sup>2"
    "nat ((int 1 - int (w + 1))\<^sup>2) = w\<^sup>2"
    by (simp_all add: nat_power_eq)
  have "var_loop (example_table w) (w + 1) 0 0 = (w\<^sup>2 + w\<^sup>2, 2)"
    unfolding example_table_def var_loop.simps using nz by (simp only: u sq if_False) simp
  moreover have "(2 * w + 2) div 2 = w + 1" by simp
  ultimately show ?thesis
    by (simp add: af_variance_def ml)
qed

text \<open>
  Claim C1. A scan starts at position 0 with no best variance recorded and an exhausted
  ignore budget; it scores \<open>MaxFocusSteps div MinSearchStep + 2 = 206\<close> frames, at the
  positions 0, 5, ..., 1025. When the scores of these frames are strictly increasing up
  to the frame of index \<open>k\<close> (position \<open>5 * k\<close>) and strictly decreasing after it, the
  last call, entered with the scan position 1025 beyond \<open>MaxFocusSteps\<close>, ends the scan
  with \<open>focus = 5 * k\<close> and \<open>stable = True\<close>. Each earlier call advances the scan
  position by \<open>MinSearchStep\<close>, writes it to \<open>focus\<close>, leaves \<open>stable\<close> false and
  records the larger of the best variance so far and the frame's score, with the position
  of a new best.
\<close>

theorem scan_converges_to_peak:
  assumes start: "\<not> stable st" "m_ignoreFrame st = 0" "m_focus st = 0" "maxVariance st = 0"
    and len: "length tables = MaxFocusSteps div MinSearchStep + 2"
    and scored: "\<forall>t \<in> set tables. af_count t \<noteq> 0"
    and peak: "k < length tables"
    and up: "\<forall>i j. i < j \<and> j \<le> k \<longrightarrow>
               af_variance (tables ! i) < af_variance (tables ! j)"
    and down: "\<forall>i j. k \<le> i \<and> i < j \<and> j < length tables \<longrightarrow>
               af_variance (tables ! j) < af_variance (tables ! i)"
  shows "(\<exists>st'. Af_run st tables = Inr st' \<and> focus st' = MinSearchStep * k \<and> stable st') \<and>
         (\<forall>n < length tables - 1. \<exists>s s'.
            Af_run st (take n tables) = Inr s \<and> m_focus s = MinSearchStep * n \<and>
            Af_process s (tables ! n) = Inr s' \<and>
            m_focus s' = m_focus s + MinSearchStep \<and> focus s' = m_focus s' \<and>
            \<not> stable s' \<and>
            maxVariance s' = max (maxVariance s) (af_variance (tables ! n)) \<and>
            m_goodFocus s' = (if maxVariance s < af_variance (tables ! n) then m_focus s
                              else m_goodFocus s))"
proof -
  let ?v = "\<lambda>i. af_variance (tables ! i)"
  have len': "length tables = 206"
    using len by (simp add: MaxFocusSteps_def MinSearchStep_def)
  have top: "\<forall>i < length tables. i \<noteq> k \<longrightarrow> ?v i < ?v k"
  proof (intro allI impI)
    fix i assume i: "i < length tables" "i \<noteq> k"
    show "?v i < ?v k"
    proof (cases "i < k")
      case True
      with up show ?thesis by blast
    next
      case False
      with i have "k < i" by simp
      with down i show ?thesis by blast
    qed
  qed
  have pos: "0 < ?v k"
  proof (cases "k = 0")
    case True
    with top len' have "?v 1 < ?v k" by simp
    with af_variance_nonneg [of "tables ! 1"] show ?thesis by simp
  next
    case False
    with top peak have "?v 0 < ?v k" by (metis gr_implies_not0 neq0_conv)
    with af_variance_nonneg [of "tables ! 0"] show ?thesis by simp
  qed
  note prefix = scan_prefix [OF start pos top scored]
  have part1: "\<exists>st'. Af_run st tables = Inr st' \<and> focus st' = MinSearchStep * k \<and> stable st'"
  proof -
    from prefix [of 205] len'
    obtain s where s: "Af_run st (take 205 tables) = Inr s" "scan_inv tables k 205 s"
      by (auto simp: MaxFocusSteps_def MinSearchStep_def)
    let ?t = "tables ! 205"
    from s(2) have f: "\<not> stable s" "m_ignoreFrame s = 0" "MaxFocusSteps < m_focus s"
      by (simp_all add: scan_inv_def MaxFocusSteps_def MinSearchStep_def)
    from scored len' have "af_count ?t \<noteq> 0" by simp
    then have run: "Af_process s ?t = Af_state_machine (s\<lparr>m_currentVariance := ?v 205\<rparr>)"
      by (rule Af_process_score)
    have good: "(if maxVariance s < ?v 205 then m_focus s else m_goodFocus s) = MinSearchStep * k"
    proof (cases "k = 205")
      case True
      with s(2) show ?thesis by (simp add: scan_inv_def)
    next
      case False
      with peak len' have k: "k < 205" by simp
      with s(2) have "maxVariance s = ?v k" "m_goodFocus s = MinSearchStep * k"
        by (simp_all add: scan_inv_def)
      moreover from top len' False have "?v 205 < ?v k" by simp
      ultimately show ?thesis by simp
    qed
    have "take (Suc 205) tables = take 205 tables @ [?t]"
      by (rule take_Suc_conv_app_nth) (simp add: len')
    moreover have "take (Suc 205) tables = tables"
      by (simp add: len')
    ultimately have "tables = take 205 tables @ [?t]"
      by simp
    then have "Af_run st tables = Af_run st (take 205 tables @ [?t])"
      by simp
    also have "\<dots> = Af_process s ?t"
      by (simp only: Af_run_snoc s(1) sum.case)
    finally have "Af_run st tables = Af_process s ?t" .
    with run good show ?thesis
      by (simp add: scan_finish [OF f])
  qed
  have part2: "\<exists>s s'. Af_run st (take n tables) = Inr s \<and> m_focus s = MinSearchStep * n \<and>
            Af_process s (tables ! n) = Inr s' \<and>
            m_focus s' = m_focus s + MinSearchStep \<and> focus s' = m_focus s' \<and>
            \<not> stable s' \<and>
            maxVariance s' = max (maxVariance s) (af_variance (tables ! n)) \<and>
            m_goodFocus s' = (if maxVariance s < af_variance (tables ! n) then m_focus s
                              else m_goodFocus s)"
    if n: "n < length tables - 1" for n
  proof -
    from n len' have n205: "n < 205" by simp
    with prefix [of n] len'
    obtain s where s: "Af_run st (take n tables) = Inr s" "scan_inv tables k n s"
      by (auto simp: MaxFocusSteps_def MinSearchStep_def)
    have nlen: "n < length tables" using n by simp
    have adv: "MinSearchStep * n \<le> MaxFocusSteps"
      using n205 by (simp add: MaxFocusSteps_def MinSearchStep_def)
    from scored nlen have sc: "af_count (tables ! n) \<noteq> 0" by simp
    from scan_inv_step [OF s(2) nlen top adv sc]
    obtain s' where s': "Af_process s (tables ! n) = Inr s'" "scan_inv tables k (Suc n) s'"
      "m_focus s' = m_focus s + MinSearchStep" "focus s' = m_focus s'"
      "maxVariance s' = max (maxVariance s) (af_variance (tables ! n))"
      "m_goodFocus s' = (if maxVariance s < af_variance (tables ! n) then m_focus s
                             else m_goodFocus s)"
      by blast
    from s(2) have "m_focus s = MinSearchStep * n" by (simp add: scan_inv_def)
    moreover from s'(2) have "\<not> stable s'" by (simp add: scan_inv_def)
    ultimately show ?thesis using s(1) s' by blast
  qed
  from part1 part2 show ?thesis by blast
qed

lemma example_scan_nth:
  "i < 206 \<Longrightarrow> example_scan ! i = example_table (if i \<le> 30 then 1000 + i else 1060 - i)"
  by (simp add: example_scan_def)

lemma example_scan_variance:
  assumes "i < 206"
  shows "af_variance (example_scan ! i) = (real (if i \<le> 30 then 1000 + i else 1060 - i))\<^sup>2"
  using assms by (simp add: example_scan_nth example_table_variance)

text \<open>
  The theorem at a concrete scan: frame \<open>i\<close> holds two cells, \<open>2 * w + 1\<close> and \<open>1\<close>,
  whose score is \<open>w\<^sup>2\<close>, with \<open>w = 1000 + i\<close> up to frame 30 and \<open>w = 1060 - i\<close> after it.
\<close>

theorem scan_converges_to_peak_witness:
  "length example_scan = 206 \<and> m_focus example_start = 0 \<and>
   (\<exists>st'. Af_run example_start example_scan = Inr st' \<and> focus st' = 150 \<and> stable st')"
proof -
  have start: "\<not> stable example_start" "m_ignoreFrame example_start = 0"
    "m_focus example_start = 0" "maxVariance example_start = 0"
    by (simp_all add: example_start_def)
  have len: "length example_scan = MaxFocusSteps div MinSearchStep + 2"
    by (simp add: example_scan_def MaxFocusSteps_def MinSearchStep_def)
  have scored: "\<forall>t \<in> set example_scan. af_count t \<noteq> 0"
    by (auto simp: example_scan_def example_table_count)
  have peak: "30 < length example_scan"
    by (simp add: example_scan_def)
  have up: "\<forall>i j. i < j \<and> j \<le> 30 \<longrightarrow>
      af_variance (example_scan ! i) < af_variance (example_scan ! j)"
    by (auto simp: example_scan_variance power2_eq_square intro!: mult_strict_mono)
  have down: "\<forall>i j. 30 \<le> i \<and> i < j \<and> j < length example_scan \<longrightarrow>
      af_variance (example_scan ! j) < af_variance (example_scan ! i)"
  proof (intro allI impI)
    fix i j assume a: "30 \<le> i \<and> i < j \<and> j < length example_scan"
    then have j: "j < 206" "i < 206" "30 < j" by (simp_all add: example_scan_def)
    have "real (1060 - j) < real (if i \<le> 30 then 1000 + i else 1060 - i)"
      using a j by auto
    then have "(real (1060 - j))\<^sup>2 < (real (if i \<le> 30 then 1000 + i else 1060 - i))\<^sup>2"
      by (rule power_strict_mono) simp_all
    with j show "af_variance (example_scan ! j) < af_variance (example_scan ! i)"
      by (simp add: example_scan_variance)
  qed
  from scan_converges_to_peak [OF start len scored peak up down]
  show ?thesis by (simp add: MinSearchStep_def example_scan_def start)
qed

text \<open>
  Claim C6. On a table whose cells are all zero the first loop leaves at its first cell
  with \<open>z = 0\<close>, and \<^verbatim>\<open>mean = total / z\<close> divides the integer \<open>total\<close> by zero:
  \<open>Af_process\<close> does not complete, whatever the state and the size of the table.
\<close>

theorem all_zero_table_divides_by_zero:
  "Af_process st (replicate n \<lparr>y1_avg = a, y2_avg = 0\<rparr>) = Inl DivisionByZero"
  by (rule Af_process_zero, rule all_zero_count) simp

lemma example_blur_count: "af_count example_blur \<noteq> 0"
  by (simp add: af_count_zero_iff example_blur_def example_item_def)

lemma example_blur_variance: "af_variance example_blur = 15 / 8"
  by (simp add: af_variance_def example_blur_def example_item_def)

text \<open>
  Claim C2, as the source has it. In stable mode the change that is compared with
  \<open>MaxChange\<close> is the absolute difference of the frame's score and \<open>maxVariance\<close>
  \<^emph>\<open>truncated to an unsigned integer\<close> and divided by \<open>maxVariance\<close> (with
  \<open>maxVariance = 0\<close> the quotient is infinite as soon as the difference reaches 1). When
  it exceeds the threshold and the ignore budget is zero the controller goes back to
  scanning: \<open>maxVariance\<close>, \<open>focus\<close> and the scan position are 0, \<open>stable\<close> is false and
  the budget is 60; with a budget left, the budget is decremented. When it does not exceed
  the threshold the budget is 10 again, and \<open>focus\<close>, \<open>stable\<close> and \<open>maxVariance\<close> are
  as before.
\<close>

theorem stable_mode_step:
  assumes "stable st" and "af_count t \<noteq> 0"
    and "\<bar>af_variance t - maxVariance st\<bar> < 2 ^ 32"
  shows "\<exists>st'. Af_process st t = Inr st' \<and>
     (if (maxVariance st \<noteq> 0 \<and>
            MaxChange < of_int \<lfloor>\<bar>af_variance t - maxVariance st\<bar>\<rfloor> / maxVariance st) \<or>
         (maxVariance st = 0 \<and> 1 \<le> \<bar>af_variance t - maxVariance st\<bar>)
      then
        (if m_ignoreFrame st = 0
         then \<not> stable st' \<and> maxVariance st' = 0 \<and> focus st' = 0 \<and> m_focus st' = 0 \<and>
              m_ignoreFrame st' = 60
         else m_ignoreFrame st' = m_ignoreFrame st - 1 \<and> stable st' \<and>
              focus st' = focus st \<and> maxVariance st' = maxVariance st)
      else m_ignoreFrame st' = 10 \<and> stable st' \<and> focus st' = focus st \<and>
           maxVariance st' = maxVariance st)"
proof -
  let ?a = "\<bar>af_variance t - maxVariance st\<bar>"
  have fl: "real (nat \<lfloor>?a\<rfloor>) = of_int \<lfloor>?a\<rfloor>"
    by simp
  have pos: "0 < nat \<lfloor>?a\<rfloor> \<longleftrightarrow> 1 \<le> ?a"
    by (simp add: le_floor_iff)
  have run: "Af_process st t = Af_state_machine (st\<lparr>m_currentVariance := af_variance t\<rparr>)"
    using assms(2) by (rule Af_process_score)
  show ?thesis
    unfolding run using assms(1,3)
    by (simp add: Af_state_machine_def Let_def fl pos del: of_nat_nat)
qed

text \<open>
  The theorem at a stable state with \<open>maxVariance = 1\<close> and the eight cells
  4, 3, 2, 2, 1, 1, 1, 1, whose score is \<open>15 / 8\<close>.
\<close>

theorem stable_mode_step_witness:
  "stable example_stable \<and> af_count example_blur \<noteq> 0 \<and>
   (\<exists>st'. Af_process example_stable example_blur = Inr st' \<and>
      m_ignoreFrame st' = 10 \<and> stable st' \<and> focus st' = 150 \<and> maxVariance st' = 1)"
proof -
  have a: "stable example_stable" by (simp add: example_stable_def)
  have b: "\<bar>af_variance example_blur - maxVariance example_stable\<bar> < 2 ^ 32"
    by (simp add: example_blur_variance example_stable_def)
  have c: "\<lfloor>\<bar>af_variance example_blur - maxVariance example_stable\<bar>\<rfloor> = 0"
    by (simp add: example_blur_variance example_stable_def)
  from stable_mode_step [OF a example_blur_count b] a example_blur_count
  show ?thesis
    by (simp add: c MaxChange_def) (simp add: example_stable_def example_blur_variance)
qed

text \<open>
  Claim C2 as stated fails at this input: the relative change
  \<open>\<bar>15 / 8 - 1\<bar> / 1 = 7 / 8\<close> exceeds \<open>MaxChange\<close> and the ignore budget is zero, yet
  the call replenishes the budget to 10 and the state stays stable, because the
  difference \<open>7 / 8\<close> is truncated to 0 before the division.
\<close>

theorem relative_change_is_truncated:
  "stable example_stable \<and> m_ignoreFrame example_stable = 0 \<and>
   MaxChange < \<bar>af_variance example_blur - maxVariance example_stable\<bar>
                 / maxVariance example_stable \<and>
   Af_process example_stable example_blur =
     Inr (example_stable\<lparr>m_currentVariance := 15 / 8, m_ignoreFrame := 10\<rparr>) \<and>
   stable (example_stable\<lparr>m_currentVariance := 15 / 8, m_ignoreFrame := 10\<rparr>)"
  by (simp add: Af_process_score example_blur_count example_blur_variance
      Af_state_machine_def example_stable_def MaxChange_def)

lemma Af_state_machine_position:
  assumes "Af_state_machine st = Inr st'"
    and "MinSearchStep dvd m_focus st" "m_focus st \<le> MaxFocusSteps + 2"
    and "MinSearchStep dvd m_goodFocus st" "m_goodFocus st \<le> MaxFocusSteps + 2"
  shows "MinSearchStep dvd m_focus st' \<and> m_focus st' \<le> MaxFocusSteps + 2 \<and>
         MinSearchStep dvd m_goodFocus st' \<and> m_goodFocus st' \<le> MaxFocusSteps + 2"
proof -
  have "m_focus st + 5 \<le> 1025" if "m_focus st \<le> 1023"
    using that assms(2) by (auto simp: MinSearchStep_def dvd_def)
  then show ?thesis
    using assms
    by (auto simp: Af_state_machine_def Let_def MaxFocusSteps_def MinSearchStep_def
        split: if_splits)
qed

lemma Af_process_position:
  assumes "Af_process st t = Inr st'"
    and "MinSearchStep dvd m_focus st" "m_focus st \<le> MaxFocusSteps + 2"
    and "MinSearchStep dvd m_goodFocus st" "m_goodFocus st \<le> MaxFocusSteps + 2"
  shows "MinSearchStep dvd m_focus st' \<and> m_focus st' \<le> MaxFocusSteps + 2 \<and>
         MinSearchStep dvd m_goodFocus st' \<and> m_goodFocus st' \<le> MaxFocusSteps + 2"
proof (cases "af_count t = 0")
  case True
  with assms(1) show ?thesis by (simp add: Af_process_zero)
next
  case False
  with assms(1)
  have "Af_state_machine (st\<lparr>m_currentVariance := af_variance t\<rparr>) = Inr st'"
    by (simp add: Af_process_score)
  from Af_state_machine_position [OF this] assms(2-5) show ?thesis by simp
qed

lemma af_reachable_position:
  "af_reachable st \<Longrightarrow>
     MinSearchStep dvd m_focus st \<and> m_focus st \<le> MaxFocusSteps + 2 \<and>
     MinSearchStep dvd m_goodFocus st \<and> m_goodFocus st \<le> MaxFocusSteps + 2"
proof (induction rule: af_reachable.induct)
  case (configured st w h)
  show ?case by (simp add: Af_configure_def Af_init_def)
next
  case (reconfigured st w h)
  then show ?case by (simp add: Af_configure_def)
next
  case (processed st t st')
  from Af_process_position [OF processed(2)] processed(3) show ?case by simp
qed

lemma reachable_ignore:
  "n \<le> 10 \<Longrightarrow> \<exists>s. af_reachable s \<and> \<not> stable s \<and> m_ignoreFrame s = 10 - n \<and> m_focus s = 0"
proof (induction n)
  case 0
  have "af_reachable example_configured"
    unfolding example_configured_def by (rule af_reachable.configured)
  then show ?case
    by (intro exI [of _ example_configured])
      (simp add: example_configured_def Af_configure_def Af_init_def)
next
  case (Suc n)
  then obtain s where s: "af_reachable s" "\<not> stable s" "m_ignoreFrame s = 10 - n" "m_focus s = 0"
    by auto
  let ?t = "example_table 0"
  let ?s' = "s\<lparr>m_currentVariance := af_variance ?t, m_ignoreFrame := m_ignoreFrame s - 1\<rparr>"
  have "Af_process s ?t = Inr ?s'"
    using s Suc.prems by (simp add: Af_process_score example_table_count Af_state_machine_def)
  with s(1) have "af_reachable ?s'" by (rule af_reachable.processed)
  with s Suc.prems show ?case
    by (intro exI [of _ ?s']) simp
qed

lemma reachable_scan:
  "n \<le> 205 \<Longrightarrow>
   \<exists>s. af_reachable s \<and> \<not> stable s \<and> m_ignoreFrame s = 0 \<and> m_focus s = MinSearchStep * n"
proof (induction n)
  case 0
  from reachable_ignore [of 10] show ?case by simp
next
  case (Suc n)
  then obtain s where s: "af_reachable s" "\<not> stable s" "m_ignoreFrame s = 0"
    "m_focus s = MinSearchStep * n"
    by auto
  let ?t = "example_table 0"
  from s(4) Suc.prems have le: "m_focus s \<le> MaxFocusSteps"
    by (simp add: MinSearchStep_def MaxFocusSteps_def)
  have run: "Af_process s ?t = Af_state_machine (s\<lparr>m_currentVariance := af_variance ?t\<rparr>)"
    by (simp add: Af_process_score example_table_count)
  note run' = run [unfolded scan_advance [OF s(2,3) le]]
  from s(1) run' have "af_reachable (s\<lparr>m_currentVariance := af_variance ?t,
                 maxVariance := max (maxVariance s) (af_variance ?t),
                 m_goodFocus := (if maxVariance s < af_variance ?t then m_focus s else m_goodFocus s),
                 m_focus := m_focus s + MinSearchStep,
                 focus := m_focus s + MinSearchStep\<rparr>)" (is "af_reachable ?s'")
    by (rule af_reachable.processed)
  with s show ?case
    by (intro exI [of _ ?s']) simp
qed

lemma scan_call:
  assumes "\<not> stable st" "m_ignoreFrame st = 0" "Af_process st t = Inr st'"
  shows "if m_focus st \<le> MaxFocusSteps
         then \<not> stable st' \<and> focus st' = m_focus st + MinSearchStep \<and> m_focus st' = focus st'
         else stable st' \<and> focus st' = m_goodFocus st' \<and> m_focus st' = m_focus st"
proof (cases "af_count t = 0")
  case True
  with assms(3) show ?thesis by (simp add: Af_process_zero)
next
  case False
  with assms(3)
  have run: "Af_state_machine (st\<lparr>m_currentVariance := af_variance t\<rparr>) = Inr st'"
    by (simp add: Af_process_score)
  show ?thesis
  proof (cases "m_focus st \<le> MaxFocusSteps")
    case True
    from run [unfolded scan_advance [OF assms(1,2) True]] True assms(1) show ?thesis by auto
  next
    case False
    then have "MaxFocusSteps < m_focus st" by simp
    from run [unfolded scan_finish [OF assms(1,2) this]] False show ?thesis by auto
  qed
qed

lemma reachable_after_ignored:
  assumes "af_reachable s" "\<not> stable s" "m_ignoreFrame s = n + m" "0 < n"
  shows "af_reachable (s\<lparr>m_currentVariance := 0, m_ignoreFrame := m\<rparr>)"
  using assms
proof (induction n arbitrary: s)
  case 0
  then show ?case by simp
next
  case (Suc n)
  let ?t = "example_table 0"
  let ?s' = "s\<lparr>m_currentVariance := 0, m_ignoreFrame := n + m\<rparr>"
  have "Af_process s ?t = Inr ?s'"
    using Suc.prems
    by (simp add: Af_process_score example_table_count example_table_variance
        Af_state_machine_def)
  with Suc.prems(1) have r: "af_reachable ?s'" by (rule af_reachable.processed)
  show ?case
  proof (cases "n = 0")
    case True
    with r show ?thesis by simp
  next
    case False
    with Suc.IH [of ?s'] r Suc.prems(2) show ?thesis by simp
  qed
qed

lemma example_scanning_reachable: "af_reachable example_scanning"
proof -
  have "af_reachable example_configured"
    unfolding example_configured_def by (rule af_reachable.configured)
  moreover have "\<not> stable example_configured" "m_ignoreFrame example_configured = 10 + 0"
    by (simp_all add: example_configured_def Af_configure_def)
  ultimately show ?thesis
    unfolding example_scanning_def by (rule reachable_after_ignored) simp
qed

lemma flat_scan_reachable:
  "n \<le> 205 \<Longrightarrow>
   af_reachable (example_scanning\<lparr>m_focus := MinSearchStep * n, focus := MinSearchStep * n\<rparr>)"
proof (induction n)
  case 0
  have "example_scanning\<lparr>m_focus := MinSearchStep * 0, focus := MinSearchStep * 0\<rparr>
      = example_scanning"
    by (simp add: example_scanning_def example_configured_def Af_configure_def Af_init_def)
  with example_scanning_reachable show ?case by simp
next
  case (Suc n)
  let ?s = "example_scanning\<lparr>m_focus := MinSearchStep * n, focus := MinSearchStep * n\<rparr>"
  let ?t = "example_table 0"
  from Suc have r: "af_reachable ?s" by simp
  have s: "\<not> stable ?s" "m_ignoreFrame ?s = 0"
    by (simp_all add: example_scanning_def example_configured_def Af_configure_def)
  from Suc.prems have le: "m_focus ?s \<le> MaxFocusSteps"
    by (simp add: MinSearchStep_def MaxFocusSteps_def)
  have "Af_process ?s ?t = Af_state_machine (?s\<lparr>m_currentVariance := af_variance ?t\<rparr>)"
    by (simp add: Af_process_score example_table_count)
  also have "\<dots> = Inr (example_scanning\<lparr>m_focus := MinSearchStep * Suc n,
                                          focus := MinSearchStep * Suc n\<rparr>)"
    unfolding scan_advance [OF s le]
    by (simp add: example_table_variance example_scanning_def example_configured_def
        Af_configure_def Af_init_def)
  finally show ?case
    using r by (rule af_reachable.processed [rotated])
qed

text \<open>
  Claim C9, as the source has it. In every state a run reaches, a call made in scanning
  mode with an exhausted ignore budget does one of two things. While the scan position is at
  most \<open>MaxFocusSteps\<close> it writes to \<open>focus\<close> the previous scan position plus
  \<open>MinSearchStep\<close>, a positive multiple of 5 that is at most 1025, and goes on scanning.
  With the scan position above \<open>MaxFocusSteps\<close>, which is then 1025, it ends the scan:
  it sets \<open>stable\<close> and writes the best position \<open>goodFocus_\<close>, a multiple of 5 between 0
  and 1025. The value 1025, beyond \<open>MaxFocusSteps = 1023\<close>, is written in a reachable
  state by an advancing call, and the next scored frame after it ends the scan.
\<close>

theorem scan_writes_next_position:
  "(\<forall>st t st'. af_reachable st \<and> \<not> stable st \<and> m_ignoreFrame st = 0 \<and>
       Af_process st t = Inr st' \<longrightarrow>
       (if m_focus st \<le> MaxFocusSteps
        then \<not> stable st' \<and> focus st' = m_focus st + MinSearchStep \<and>
             MinSearchStep dvd focus st' \<and> 0 < focus st' \<and> focus st' \<le> 1025
        else m_focus st = 1025 \<and> stable st' \<and> focus st' = m_goodFocus st' \<and>
             MinSearchStep dvd focus st' \<and> focus st' \<le> 1025)) \<and>
   (\<exists>st t st'. af_reachable st \<and> \<not> stable st \<and> m_ignoreFrame st = 0 \<and>
       m_focus st \<le> MaxFocusSteps \<and> Af_process st t = Inr st' \<and>
       focus st' = 1025 \<and> MaxFocusSteps < focus st' \<and>
       (\<forall>t'. af_count t' \<noteq> 0 \<longrightarrow> (\<exists>st''. Af_process st' t' = Inr st'' \<and> stable st'')))"
proof -
  have part1: "if m_focus st \<le> MaxFocusSteps
        then \<not> stable st' \<and> focus st' = m_focus st + MinSearchStep \<and>
             MinSearchStep dvd focus st' \<and> 0 < focus st' \<and> focus st' \<le> 1025
        else m_focus st = 1025 \<and> stable st' \<and> focus st' = m_goodFocus st' \<and>
             MinSearchStep dvd focus st' \<and> focus st' \<le> 1025"
    if a: "af_reachable st \<and> \<not> stable st \<and> m_ignoreFrame st = 0 \<and>
       Af_process st t = Inr st'" for st t st'
  proof -
    from a have c: "if m_focus st \<le> MaxFocusSteps
         then \<not> stable st' \<and> focus st' = m_focus st + MinSearchStep \<and> m_focus st' = focus st'
         else stable st' \<and> focus st' = m_goodFocus st' \<and> m_focus st' = m_focus st"
      using scan_call [of st t st'] by simp
    from a have "af_reachable st'" by (blast intro: af_reachable.processed)
    from af_reachable_position [OF this]
    have p': "MinSearchStep dvd m_focus st'" "m_focus st' \<le> MaxFocusSteps + 2"
      "MinSearchStep dvd m_goodFocus st'" "m_goodFocus st' \<le> MaxFocusSteps + 2"
      by simp_all
    from a af_reachable_position [of st]
    have p: "MinSearchStep dvd m_focus st" "m_focus st \<le> MaxFocusSteps + 2"
      by simp_all
    show ?thesis
    proof (cases "m_focus st \<le> MaxFocusSteps")
      case True
      with c p' show ?thesis
        by (simp add: MinSearchStep_def MaxFocusSteps_def)
    next
      case False
      from p(1) obtain k where k: "m_focus st = 5 * k"
        by (auto simp: MinSearchStep_def dvd_def)
      with False p(2) have "m_focus st = 1025"
        by (simp add: MaxFocusSteps_def)
      with False c p' show ?thesis
        by (simp add: MinSearchStep_def MaxFocusSteps_def)
    qed
  qed
  from reachable_scan [of 204]
  obtain s where s: "af_reachable s" "\<not> stable s" "m_ignoreFrame s = 0" "m_focus s = 1020"
    by (auto simp: MinSearchStep_def)
  let ?t = "example_table 0"
  let ?s' = "s\<lparr>m_currentVariance := af_variance ?t,
                 maxVariance := max (maxVariance s) (af_variance ?t),
                 m_goodFocus := (if maxVariance s < af_variance ?t then m_focus s else m_goodFocus s),
                 m_focus := m_focus s + MinSearchStep,
                 focus := m_focus s + MinSearchStep\<rparr>"
  from s(4) have le: "m_focus s \<le> MaxFocusSteps" by (simp add: MaxFocusSteps_def)
  have run: "Af_process s ?t = Inr ?s'"
    by (simp add: Af_process_score example_table_count scan_advance [OF s(2,3) le])
  have fin: "\<exists>st''. Af_process ?s' t' = Inr st'' \<and> stable st''" if "af_count t' \<noteq> 0" for t'
  proof -
    have "\<not> stable ?s'" "m_ignoreFrame ?s' = 0" "MaxFocusSteps < m_focus ?s'"
      using s by (simp_all add: MaxFocusSteps_def MinSearchStep_def)
    from scan_finish [OF this] that show ?thesis
      by (simp add: Af_process_score)
  qed
  have "af_reachable s \<and> \<not> stable s \<and> m_ignoreFrame s = 0 \<and> m_focus s \<le> MaxFocusSteps \<and>
       Af_process s ?t = Inr ?s' \<and>
       focus ?s' = 1025 \<and> MaxFocusSteps < focus ?s' \<and>
       (\<forall>t'. af_count t' \<noteq> 0 \<longrightarrow> (\<exists>st''. Af_process ?s' t' = Inr st'' \<and> stable st''))"
    using s run fin le by (simp add: MaxFocusSteps_def MinSearchStep_def)
  then have part2: "\<exists>st t st'. af_reachable st \<and> \<not> stable st \<and> m_ignoreFrame st = 0 \<and>
       m_focus st \<le> MaxFocusSteps \<and> Af_process st t = Inr st' \<and>
       focus st' = 1025 \<and> MaxFocusSteps < focus st' \<and>
       (\<forall>t'. af_count t' \<noteq> 0 \<longrightarrow> (\<exists>st''. Af_process st' t' = Inr st'' \<and> stable st''))"
    by blast
  from part1 part2 show ?thesis by blast
qed

text \<open>
  The theorem at the state reached by configuring a new object and processing the ten
  frames of the first ignore budget.
\<close>

theorem scan_writes_next_position_witness:
  "af_reachable example_scanning \<and> m_focus example_scanning = 0 \<and>
   (\<exists>st'. Af_process example_scanning (example_table 3) = Inr st' \<and> \<not> stable st' \<and>
      focus st' = 5 \<and> MinSearchStep dvd focus st' \<and> 0 < focus st' \<and> focus st' \<le> 1025)"
proof -
  let ?st = example_scanning
  let ?st' = "?st\<lparr>m_currentVariance := 9, maxVariance := 9, m_focus := 5, focus := 5\<rparr>"
  have st: "\<not> stable ?st" "m_ignoreFrame ?st = 0" "m_focus ?st = 0" "maxVariance ?st = 0"
    "m_goodFocus ?st = 0"
    by (simp_all add: example_scanning_def example_configured_def Af_configure_def Af_init_def)
  from st have le: "m_focus ?st \<le> MaxFocusSteps" by simp
  have run: "Af_process ?st (example_table 3) = Inr ?st'"
    using st
    by (simp add: Af_process_score example_table_count example_table_variance
        scan_advance [OF st(1,2) le] MinSearchStep_def)
  have c: "if m_focus ?st \<le> MaxFocusSteps
        then \<not> stable ?st' \<and> focus ?st' = m_focus ?st + MinSearchStep \<and>
             MinSearchStep dvd focus ?st' \<and> 0 < focus ?st' \<and> focus ?st' \<le> 1025
        else m_focus ?st = 1025 \<and> stable ?st' \<and> focus ?st' = m_goodFocus ?st' \<and>
             MinSearchStep dvd focus ?st' \<and> focus ?st' \<le> 1025"
  proof -
    have "af_reachable ?st \<and> \<not> stable ?st \<and> m_ignoreFrame ?st = 0 \<and>
       Af_process ?st (example_table 3) = Inr ?st'"
      using example_scanning_reachable st run by simp
    with scan_writes_next_position [THEN conjunct1, THEN spec, THEN spec, THEN spec,
        of ?st "example_table 3" ?st']
    show ?thesis by (rule mp)
  qed
  from c [unfolded if_P [OF le]] run st example_scanning_reachable show ?thesis by simp
qed

text \<open>
  Claim C9 as stated, for every focus target written in scanning mode with an exhausted
  ignore budget, fails at this input: after a scan of 205 frames that all score 0 the scan
  position is 1025, and the next call, made in scanning mode with the budget at zero,
  writes the best position 0; that is not the previous position plus 5, and not a positive
  multiple of 5.
\<close>

theorem scan_end_writes_best_position:
  "af_reachable example_scan_end \<and> \<not> stable example_scan_end \<and>
   m_ignoreFrame example_scan_end = 0 \<and> m_focus example_scan_end = 1025 \<and>
   Af_process example_scan_end (example_table 0) =
     Inr (example_scan_end\<lparr>stable := True, focus := 0\<rparr>) \<and>
   focus (example_scan_end\<lparr>stable := True, focus := 0\<rparr>) \<noteq> m_focus example_scan_end + 5 \<and>
   \<not> 0 < focus (example_scan_end\<lparr>stable := True, focus := 0\<rparr>)"
proof -
  have e: "example_scan_end =
      example_scanning\<lparr>m_focus := MinSearchStep * 205, focus := MinSearchStep * 205\<rparr>"
    by (simp add: example_scan_end_def MinSearchStep_def)
  have r: "af_reachable example_scan_end"
    unfolding e by (rule flat_scan_reachable) simp
  have s: "\<not> stable example_scan_end" "m_ignoreFrame example_scan_end = 0"
    "m_focus example_scan_end = 1025"
    by (simp_all add: example_scan_end_def example_scanning_def example_configured_def
        Af_configure_def)
  from s(3) have gt: "MaxFocusSteps < m_focus example_scan_end"
    by (simp add: MaxFocusSteps_def)
  have "Af_process example_scan_end (example_table 0) =
      Af_state_machine (example_scan_end\<lparr>m_currentVariance := af_variance (example_table 0)\<rparr>)"
    by (simp add: Af_process_score example_table_count)
  also have "\<dots> = Inr (example_scan_end\<lparr>stable := True, focus := 0\<rparr>)"
    unfolding scan_finish [OF s(1,2) gt]
    by (simp add: example_table_variance example_scan_end_def example_scanning_def
        example_configured_def Af_configure_def Af_init_def)
  finally show ?thesis
    using r s by simp
qed

section \<open>Floating-point values: lemmas\<close>

declare log2_floor.simps [simp del]

lemma log2_floor_bound: "n < 2 ^ Suc k \<Longrightarrow> log2_floor n \<le> k"
proof (induction k arbitrary: n)
  case 0
  then show ?case by (simp add: log2_floor.simps)
next
  case (Suc k)
  show ?case
  proof (cases "n < 2")
    case True
    then show ?thesis by (simp add: log2_floor.simps)
  next
    case False
    from Suc.prems have "n div 2 < 2 ^ Suc k" by simp
    from Suc.IH [OF this] False show ?thesis
      by (subst log2_floor.simps) simp
  qed
qed

lemma nat_less_int: "0 \<le> z \<Longrightarrow> z < int n \<Longrightarrow> nat z < n"
  by linarith

lemma binade_bound:
  assumes "0 < x" "x < 2 ^ 53"
  shows "binade (- 1022) x \<le> 52"
proof (cases "1 \<le> x")
  case True
  have "x < of_int (2 ^ 53)" using assms(2) by simp
  then have "\<lfloor>x\<rfloor> < 2 ^ 53" by (simp only: floor_less_iff)
  then have "\<lfloor>x\<rfloor> < int (2 ^ Suc 52)" by simp
  moreover have "0 \<le> \<lfloor>x\<rfloor>" using assms(1) by simp
  ultimately have "nat \<lfloor>x\<rfloor> < 2 ^ Suc 52" by (intro nat_less_int)
  from log2_floor_bound [OF this] True show ?thesis by (simp add: binade_def)
next
  case False
  then show ?thesis by (simp add: binade_def)
qed

lemma round_even_of_int: "round_even (of_int n) = n"
  by (simp add: round_even_def)

lemma round_even_near:
  assumes "\<bar>y - of_int m\<bar> < 1 / 2"
  shows "round_even y = m"
proof (cases "of_int m \<le> y")
  case True
  with assms have "\<lfloor>y\<rfloor> = m" by (intro floor_unique) simp_all
  with True assms show ?thesis by (simp add: round_even_def Let_def)
next
  case False
  with assms have "\<lfloor>y\<rfloor> = m - 1" by (intro floor_unique) simp_all
  with False assms show ?thesis by (simp add: round_even_def Let_def)
qed

lemma round_even_nonneg: "0 \<le> y \<Longrightarrow> 0 \<le> round_even y"
  by (auto simp: round_even_def Let_def)

lemma round_even_le:
  assumes "y \<le> of_int m"
  shows "round_even y \<le> m"
proof -
  from assms have f: "\<lfloor>y\<rfloor> \<le> m" by (simp add: floor_le_iff)
  show ?thesis
  proof (cases "y = of_int \<lfloor>y\<rfloor>")
    case True
    then have "round_even y = \<lfloor>y\<rfloor>" by (simp add: round_even_def)
    with f show ?thesis by simp
  next
    case False
    have "\<lfloor>y\<rfloor> \<noteq> m"
    proof
      assume "\<lfloor>y\<rfloor> = m"
      with assms have "y \<le> of_int \<lfloor>y\<rfloor>" by simp
      moreover have "of_int \<lfloor>y\<rfloor> \<le> y" by simp
      ultimately show False using False by simp
    qed
    with f have "\<lfloor>y\<rfloor> + 1 \<le> m" by simp
    with f show ?thesis by (auto simp: round_even_def Let_def)
  qed
qed

lemma below_overflow: "n < 2 ^ 53 \<Longrightarrow> real n < double_overflow"
proof -
  assume "n < 2 ^ 53"
  then have "real n < 2 ^ 53" by (metis of_nat_less_numeral_power_cancel_iff)
  also have "\<dots> \<le> (2 :: real) ^ 1024" by (intro power_increasing) simp_all
  finally show ?thesis by (simp only: double_overflow_def)
qed

lemma overflow_large: "2 ^ 64 \<le> double_overflow" "2 ^ 64 \<le> extended_overflow"
proof -
  have "(2 :: real) ^ 64 \<le> 2 ^ 1024" by (intro power_increasing) simp_all
  then show "2 ^ 64 \<le> double_overflow" by (simp only: double_overflow_def)
  have "(2 :: real) ^ 64 \<le> 2 ^ 16384" by (intro power_increasing) simp_all
  then show "2 ^ 64 \<le> extended_overflow" by (simp only: extended_overflow_def)
qed

lemma below_overflow_times:
  assumes "0 < b" "a < 2 ^ 64 * b"
  shows "(double_overflow * b \<le> a) = False" "(extended_overflow * b \<le> a) = False"
proof -
  have "2 ^ 64 * b \<le> double_overflow * b" "2 ^ 64 * b \<le> extended_overflow * b"
    using assms(1) overflow_large by (simp_all only: mult_le_cancel_right_pos)
  with assms(2) show "(double_overflow * b \<le> a) = False"
    "(extended_overflow * b \<le> a) = False"
    by simp_all
qed

lemma below_overflow_plain:
  assumes "a < 2 ^ 64"
  shows "(double_overflow \<le> a) = False" "(extended_overflow \<le> a) = False"
  using below_overflow_times [of 1 a] assms by simp_all

lemmas round_evaluation = round_double_def round_extended_def round_nearest_def binade_def
  log2_floor.simps round_even_def Let_def below_overflow_times below_overflow_plain

text \<open>
  Rounding keeps a quotient between 0 and a natural number below \<open>2 ^ 53\<close> there, and
  every such natural number is a binary64 number.
\<close>

lemma round_double_range:
  assumes "0 \<le> x" "x \<le> real n" "n < 2 ^ 53"
  shows "\<exists>r. round_double x = Fin r \<and> 0 \<le> r \<and> r \<le> real n"
proof (cases "x = 0")
  case True
  then show ?thesis by (simp add: round_double_def round_nearest_def)
next
  case False
  with assms(1) have pos: "0 < x" by simp
  from assms(2,3) have "x < 2 ^ 53"
    by (metis le_less_trans of_nat_less_numeral_power_cancel_iff)
  from binade_bound [OF pos this] have e: "binade (- 1022) \<bar>x\<bar> \<le> 52" using pos by simp
  define k where "k = nat (52 - binade (- 1022) \<bar>x\<bar>)"
  define u :: real where "u = 2 powi (binade (- 1022) \<bar>x\<bar> - int 52)"
  have u: "u = 1 / 2 ^ k"
    using e by (simp add: u_def k_def power_int_def field_simps)
  then have u0: "0 < u" by simp
  define r where "r = of_int (round_even (x / u)) * u"
  have "x / u \<le> of_int (int n * 2 ^ k)"
    using assms(2) by (simp add: u field_simps)
  from round_even_le [OF this]
  have "of_int (round_even (x / u)) \<le> (of_int (int n * 2 ^ k) :: real)"
    by (simp only: of_int_le_iff)
  then have "r \<le> of_int (int n * 2 ^ k) * u"
    unfolding r_def using u0 by (intro mult_right_mono) simp_all
  then have le: "r \<le> real n" by (simp add: u)
  have "0 \<le> x / u" using pos u0 by simp
  from round_even_nonneg [OF this] have r0: "0 \<le> r"
    using u0 by (simp add: r_def)
  from below_overflow [OF assms(3)] le r0 have "\<not> double_overflow \<le> \<bar>r\<bar>" by simp
  then have "round_double x = Fin r"
    using False
    by (simp add: round_double_def round_nearest_def Let_def u_def [symmetric] r_def [symmetric]
        del: of_nat_numeral)
  with r0 le show ?thesis by simp
qed

lemma round_double_nat:
  assumes "n < 2 ^ 53"
  shows "round_double (real n) = Fin (real n)"
proof (cases "n = 0")
  case True
  then show ?thesis by (simp add: round_double_def round_nearest_def)
next
  case False
  then have pos: "0 < real n" by simp
  have "real n < 2 ^ 53" using assms by (metis of_nat_less_numeral_power_cancel_iff)
  from binade_bound [OF pos this] have e: "binade (- 1022) \<bar>real n\<bar> \<le> 52" by simp
  define k where "k = nat (52 - binade (- 1022) \<bar>real n\<bar>)"
  define u :: real where "u = 2 powi (binade (- 1022) \<bar>real n\<bar> - int 52)"
  have u: "u = 1 / 2 ^ k"
    using e by (simp add: u_def k_def power_int_def field_simps)
  have "real n / u = of_int (int n * 2 ^ k)" by (simp add: u)
  then have "round_even (real n / u) = int n * 2 ^ k" by (simp only: round_even_of_int)
  then have r: "of_int (round_even (real n / u)) * u = real n" by (simp add: u)
  from below_overflow [OF assms] have big: "\<not> double_overflow \<le> \<bar>real n\<bar>" by simp
  have "round_double (real n) =
      (if real n = 0 then Fin 0
       else if double_overflow \<le> \<bar>of_int (round_even (real n / u)) * u\<bar>
            then (if 0 < real n then PInf else MInf)
            else Fin (of_int (round_even (real n / u)) * u))"
    by (simp only: round_double_def round_nearest_def Let_def u_def)
  then show ?thesis
    using False big by (simp only: r) simp
qed

lemma round_double_numeral:
  "numeral k < (2 :: nat) ^ 53 \<Longrightarrow> round_double (numeral k) = Fin (numeral k)"
  using round_double_nat [of "numeral k"] by simp

lemma line_count_defined:
  assumes "0 < d" "0 \<le> sh" "sh \<le> real n * d" "n < 2 ^ 32"
  shows "\<exists>k. duration_lines (Fin sh) (Fin d) = Inr k \<and> k \<le> n"
proof -
  have "sh / d \<le> real n"
    using assms(1,3) by (simp add: divide_le_eq)
  moreover have "0 \<le> sh / d" using assms(1,2) by simp
  moreover have "n < 2 ^ 53"
  proof -
    note assms(4)
    also have "(2 :: nat) ^ 32 \<le> 2 ^ 53" by (intro power_increasing) simp_all
    finally show ?thesis .
  qed
  ultimately obtain r where r: "round_double (sh / d) = Fin r" "0 \<le> r" "r \<le> real n"
    using round_double_range by blast
  have "real n < 2 ^ 32"
    using assms(4) by (metis of_nat_less_numeral_power_cancel_iff)
  with r(3) have lt: "r < 2 ^ 32" by simp
  from r(3) have "\<lfloor>r\<rfloor> \<le> int n" by (simp add: floor_le_iff)
  then have "nat \<lfloor>r\<rfloor> \<le> n" by simp
  with r(1,2) lt assms(1) show ?thesis by (simp add: duration_lines_def)
qed

lemma line_count_fits:
  assumes "0 < d" "0 \<le> sh" "sh \<le> (2 ^ 32 - 1) * d"
  shows "\<exists>k. duration_lines (Fin sh) (Fin d) = Inr k"
proof -
  have "sh \<le> real (2 ^ 32 - 1) * d" using assms(3) by simp
  from line_count_defined [OF assms(1,2) this] show ?thesis by auto
qed

lemma duration_lines_fault: "duration_lines t d = Inl e \<Longrightarrow> e = ConversionOutOfRange"
  by (cases "dround (ddiv t d)") (simp_all add: duration_lines_def split: if_splits)

lemma duration_lines_whole:
  assumes "n < 2 ^ 32" and "d \<noteq> 0"
  shows "duration_lines (Fin (real n * d)) (Fin d) = Inr n"
proof -
  have "n < 2 ^ 53"
  proof -
    note assms(1)
    also have "(2 :: nat) ^ 32 \<le> 2 ^ 53" by (intro power_increasing) simp_all
    finally show ?thesis .
  qed
  then have r: "round_double (real n) = Fin (real n)"
    by (rule round_double_nat)
  have "real n < 2 ^ 32"
    using assms(1) by (metis of_nat_less_numeral_power_cancel_iff)
  then show ?thesis
    using assms(2) by (simp add: duration_lines_def r)
qed


section \<open>Auto exposure and gain: lemmas\<close>

lemma sqrt_fifth: "sqrt 0.2 \<noteq> 0.2"
proof
  assume a: "sqrt 0.2 = 0.2"
  have "(sqrt 0.2)\<^sup>2 = (0.2 :: real)" by (rule real_sqrt_pow2) simp
  with a have "(0.2 :: real)\<^sup>2 = 0.2" by (simp only:)
  then show False by (simp add: power2_eq_square)
qed

text \<open>
  Claim C3, as the source has it. The first sample (the filter state is zero) seeds the
  filter with the target. Otherwise the new value is
  \<open>speed * target + (1 - speed) * filtered\<close>: while the frame counter is below
  \<open>kNumStartupFrames\<close> the speed is 1 (and so is its square root), so the new value is the
  target; afterwards the speed is 0.2, or \<open>sqrt 0.2\<close> when the \<^emph>\<open>filtered\<close> value lies
  strictly between 0.8 and 1.2 times the \<^emph>\<open>target\<close>. No other member changes. The first
  equation is the filter on numbers; the second is the filter on every value of a
  \<^verbatim>\<open>double\<close>, where the comparisons are false when an operand is not a number.
\<close>

theorem filter_speed:
  "filterExposure (agc\<lparr>m_filteredExposure := Fin filtered, m_currentExposure := Fin target\<rparr>) =
     agc\<lparr>m_filteredExposure := Fin
       (if filtered = 0 then target
        else if m_frameCount agc < kNumStartupFrames then target
        else if 0.8 * target < filtered \<and> filtered < 1.2 * target
        then sqrt 0.2 * target + (1 - sqrt 0.2) * filtered
        else 0.2 * target + (1 - 0.2) * filtered),
       m_currentExposure := Fin target\<rparr> \<and>
   filterExposure agc =
     agc\<lparr>m_filteredExposure :=
       (if deq (m_filteredExposure agc) (Fin 0) then m_currentExposure agc
        else
          let speed =
            (if m_frameCount agc < kNumStartupFrames then 1
             else if dless (dmul (Fin 0.8) (m_currentExposure agc)) (m_filteredExposure agc) \<and>
                     dless (m_filteredExposure agc) (dmul (Fin 1.2) (m_currentExposure agc))
             then sqrt 0.2 else 0.2)
          in dadd (dmul (Fin speed) (m_currentExposure agc))
                  (dmul (m_filteredExposure agc) (Fin (1 - speed))))\<rparr>"
  by (simp add: filterExposure_def deq_def Let_def mult.commute)

text \<open>
  Claim C3 as stated, with the band taken around the filtered value, fails at this
  input: after startup, with a filtered exposure of 100 and a target of 81, the target is
  within 20 percent of the filtered value, yet the source keeps the speed 0.2, because
  100 is not below \<open>1.2 * 81\<close>.
\<close>

theorem filter_band_is_around_target:
  "kNumStartupFrames \<le> m_frameCount example_agc \<and>
   m_filteredExposure example_agc = Fin 100 \<and> m_currentExposure example_agc = Fin 81 \<and>
   (0.8 :: real) * 100 \<le> 81 \<and> (81 :: real) \<le> 1.2 * 100 \<and>
   m_filteredExposure (filterExposure example_agc) = Fin (0.2 * 81 + (1 - 0.2) * 100) \<and>
   m_filteredExposure (filterExposure example_agc) \<noteq>
     Fin (sqrt 0.2 * 81 + (1 - sqrt 0.2) * 100)"
proof -
  have "(962 / 10 :: real) \<noteq> sqrt 0.2 * 81 + (1 - sqrt 0.2) * 100"
  proof
    assume "(962 / 10 :: real) = sqrt 0.2 * 81 + (1 - sqrt 0.2) * 100"
    then have "sqrt 0.2 = 0.2" by (simp add: algebra_simps)
    with sqrt_fifth show False by simp
  qed
  then show ?thesis
    by (simp add: filterExposure_def deq_def example_agc_def kNumStartupFrames_def Let_def)
qed

text \<open>
  Claim C5, as the source has it. Both \<open>configure\<close> operations return 0 whenever they
  return, and overwrite the state they set: neither has a failure return and neither looks
  at the grid dimensions. \<open>Af_configure\<close> returns for every input and resets the focus
  state whatever the output size is. \<open>Agc_configure\<close> gives the same result whatever the
  grid is; the only other end of the call is the conversion of the quotient of the
  minimum shutter time by the line duration to an unsigned integer, where that is
  undefined. With a pixel rate of zero and a line length that is not zero the line
  duration is infinite, the exposure is 0 and the return value is 0; with a line duration
  that is a positive number, the call returns 0 as soon as the minimum shutter time is
  not negative and counts at most \<open>2 ^ 32 - 1\<close> lines.
\<close>

theorem configure_returns_zero:
  "fst (Af_configure st bds_width bds_height) = 0 \<and>
   snd (Af_configure st bds_width bds_height) =
     st\<lparr>focus := 0, maxVariance := 0, stable := False, m_ignoreFrame := 10,
        start_x := bds_width div 2 - 64, start_y := bds_height div 2 - 64\<rparr> \<and>
   (\<forall>rc agc' fc'. Agc_configure agc cfg fc info = Inr (rc, agc', fc') \<longrightarrow>
      rc = 0 \<and> m_stride agc' = grid_stride cfg \<and>
      m_minShutterSpeed agc' = agc_minShutterSpeed cfg \<and>
      m_maxShutterSpeed agc' = min (agc_maxShutterSpeed cfg) kMaxShutterSpeed \<and>
      m_minAnalogueGain agc' = max (agc_minAnalogueGain cfg) kMinAnalogueGain \<and>
      m_maxAnalogueGain agc' = min (agc_maxAnalogueGain cfg) kMaxAnalogueGain \<and>
      agc_gain fc' = Fin (m_minAnalogueGain agc') \<and>
      duration_lines (Fin (agc_minShutterSpeed cfg)) (m_lineDuration agc')
        = Inr (agc_exposure fc')) \<and>
   Agc_configure agc (cfg\<lparr>grid_bdsGrid := grid\<rparr>) fc info = Agc_configure agc cfg fc info \<and>
   (\<forall>e. Agc_configure agc cfg fc info = Inl e \<longrightarrow>
      e = ConversionOutOfRange \<and>
      duration_lines (Fin (agc_minShutterSpeed cfg)) (sensor_lineDuration info)
        = Inl ConversionOutOfRange) \<and>
   (pixelRate info = 0 \<and> lineLength info \<noteq> 0 \<longrightarrow>
      (\<exists>agc' fc'. Agc_configure agc cfg fc info = Inr (0, agc', fc') \<and>
         m_lineDuration agc' = PInf \<and> agc_exposure fc' = 0)) \<and>
   ((case sensor_lineDuration info of
       Fin d \<Rightarrow> 0 < d \<and> 0 \<le> agc_minShutterSpeed cfg \<and>
                 agc_minShutterSpeed cfg \<le> (2 ^ 32 - 1) * d
     | _ \<Rightarrow> False) \<longrightarrow>
      (\<exists>agc' fc'. Agc_configure agc cfg fc info = Inr (0, agc', fc')))"
proof -
  let ?ld = "sensor_lineDuration info"
  let ?q = "duration_lines (Fin (agc_minShutterSpeed cfg)) ?ld"
  have zero: "\<exists>agc' fc'. Agc_configure agc cfg fc info = Inr (0, agc', fc') \<and>
         m_lineDuration agc' = PInf \<and> agc_exposure fc' = 0"
    if "pixelRate info = 0 \<and> lineLength info \<noteq> 0"
    using that
    by (simp add: Agc_configure_def Let_def sensor_lineDuration_def duration_lines_def
        round_double_def round_nearest_def)
  have fin: "\<exists>agc' fc'. Agc_configure agc cfg fc info = Inr (0, agc', fc')"
    if a: "case ?ld of
             Fin d \<Rightarrow> 0 < d \<and> 0 \<le> agc_minShutterSpeed cfg \<and>
                       agc_minShutterSpeed cfg \<le> (2 ^ 32 - 1) * d
           | _ \<Rightarrow> False"
  proof -
    from a obtain d where d: "?ld = Fin d" "0 < d" "0 \<le> agc_minShutterSpeed cfg"
      "agc_minShutterSpeed cfg \<le> (2 ^ 32 - 1) * d"
      by (cases ?ld) simp_all
    from line_count_fits [OF d(2,3,4)] obtain n where
      "duration_lines (Fin (agc_minShutterSpeed cfg)) (Fin d) = Inr n"
      by blast
    then have "?q = Inr n" by (simp only: d(1))
    then show ?thesis
      by (simp add: Agc_configure_def Let_def)
  qed
  have fault: "e = ConversionOutOfRange \<and> ?q = Inl ConversionOutOfRange"
    if "Agc_configure agc cfg fc info = Inl e" for e
  proof (cases ?q)
    case (Inl e')
    then have "e' = ConversionOutOfRange"
      by (rule duration_lines_fault)
    with Inl that show ?thesis
      by (simp add: Agc_configure_def Let_def)
  next
    case (Inr n)
    with that show ?thesis
      by (simp add: Agc_configure_def Let_def)
  qed
  have ret: "rc = 0 \<and> m_stride agc' = grid_stride cfg \<and>
      m_minShutterSpeed agc' = agc_minShutterSpeed cfg \<and>
      m_maxShutterSpeed agc' = min (agc_maxShutterSpeed cfg) kMaxShutterSpeed \<and>
      m_minAnalogueGain agc' = max (agc_minAnalogueGain cfg) kMinAnalogueGain \<and>
      m_maxAnalogueGain agc' = min (agc_maxAnalogueGain cfg) kMaxAnalogueGain \<and>
      agc_gain fc' = Fin (m_minAnalogueGain agc') \<and>
      duration_lines (Fin (agc_minShutterSpeed cfg)) (m_lineDuration agc')
        = Inr (agc_exposure fc')"
    if "Agc_configure agc cfg fc info = Inr (rc, agc', fc')" for rc agc' fc'
    using that by (cases ?q) (auto simp: Agc_configure_def Let_def)
  have grid: "Agc_configure agc (cfg\<lparr>grid_bdsGrid := grid\<rparr>) fc info = Agc_configure agc cfg fc info"
    by (simp add: Agc_configure_def)
  have af: "fst (Af_configure st bds_width bds_height) = 0 \<and>
   snd (Af_configure st bds_width bds_height) =
     st\<lparr>focus := 0, maxVariance := 0, stable := False, m_ignoreFrame := 10,
        start_x := bds_width div 2 - 64, start_y := bds_height div 2 - 64\<rparr>"
    by (simp add: Af_configure_def)
  from af ret grid fault zero fin show ?thesis by blast
qed

lemma example_line_duration: "sensor_lineDuration example_info = Fin 20000"
  by (simp add: sensor_lineDuration_def example_info_def round_evaluation)

lemma example_lines [simp]:
  "duration_lines (Fin 100000) (Fin 20000) = Inr 5"
  "duration_lines (Fin 60000000) (Fin 20000) = Inr 3000"
  "duration_lines (Fin 10000000) (Fin 20000) = Inr 500"
  using duration_lines_whole [of 5 20000] duration_lines_whole [of 3000 20000]
    duration_lines_whole [of 500 20000]
  by simp_all

text \<open>
  The theorem at a new controller and a session with a grid of two by two cells, for a
  sensor with a line of 20000 ns and for one that reports a pixel rate of zero.
\<close>

theorem configure_returns_zero_witness:
  "(\<exists>agc' fc'. Agc_configure example_new_agc example_cfg example_context example_info
       = Inr (0, agc', fc') \<and> m_maxShutterSpeed agc' = 60000000 \<and> agc_gain fc' = Fin 1) \<and>
   pixelRate example_no_rate = 0 \<and>
   (\<exists>agc' fc'. Agc_configure example_new_agc example_cfg example_context example_no_rate
       = Inr (0, agc', fc') \<and> m_lineDuration agc' = PInf \<and> agc_exposure fc' = 0)"
proof -
  note c = configure_returns_zero
    [where agc = example_new_agc and cfg = example_cfg and fc = example_context]
  have "case sensor_lineDuration example_info of
       Fin d \<Rightarrow> 0 < d \<and> 0 \<le> agc_minShutterSpeed example_cfg \<and>
                 agc_minShutterSpeed example_cfg \<le> (2 ^ 32 - 1) * d
     | _ \<Rightarrow> False"
    by (simp add: example_line_duration example_cfg_def)
  with c [where info = example_info]
  obtain agc' fc' where
    r: "Agc_configure example_new_agc example_cfg example_context example_info = Inr (0, agc', fc')"
    by blast
  with c [where info = example_info]
  have "m_maxShutterSpeed agc' = min (agc_maxShutterSpeed example_cfg) kMaxShutterSpeed"
    "m_minAnalogueGain agc' = max (agc_minAnalogueGain example_cfg) kMinAnalogueGain"
    "agc_gain fc' = Fin (m_minAnalogueGain agc')"
    by blast+
  with r have first: "\<exists>agc' fc'. Agc_configure example_new_agc example_cfg example_context
       example_info = Inr (0, agc', fc') \<and> m_maxShutterSpeed agc' = 60000000 \<and>
       agc_gain fc' = Fin 1"
    by (simp add: example_cfg_def kMaxShutterSpeed_def kMinAnalogueGain_def)
  have z: "pixelRate example_no_rate = 0 \<and> lineLength example_no_rate \<noteq> 0"
    by (simp add: example_no_rate_def)
  with c [where info = example_no_rate]
  have "\<exists>agc' fc'. Agc_configure example_new_agc example_cfg example_context example_no_rate
       = Inr (0, agc', fc') \<and> m_lineDuration agc' = PInf \<and> agc_exposure fc' = 0"
    by blast
  with first z show ?thesis by blast
qed

text \<open>
  Claim C5 as stated fails at this input: with a grid of zero by zero cells and stride 0
  \<open>Agc_configure\<close> returns 0 and a controller that differs from the prior one, and
  \<open>Af_configure\<close> with an empty output size returns 0 and changes a stable state.
\<close>

theorem configure_accepts_empty_grid:
  "width (grid_bdsGrid example_empty_cfg) = 0 \<and> height (grid_bdsGrid example_empty_cfg) = 0 \<and>
   Agc_configure example_new_agc example_empty_cfg example_context example_info =
     Inr (0, example_new_agc\<lparr>m_lineDuration := Fin 20000, m_minShutterSpeed := 100000,
                m_maxShutterSpeed := 60000000, m_minAnalogueGain := 1, m_maxAnalogueGain := 8\<rparr>,
             example_context\<lparr>agc_gain := Fin 1, agc_exposure := 5\<rparr>) \<and>
   example_new_agc\<lparr>m_lineDuration := Fin 20000, m_minShutterSpeed := 100000,
                m_maxShutterSpeed := 60000000, m_minAnalogueGain := 1, m_maxAnalogueGain := 8\<rparr>
     \<noteq> example_new_agc \<and>
   fst (Af_configure example_start 0 0) = 0 \<and>
   snd (Af_configure example_stable 0 0) \<noteq> example_stable"
  by (simp add: Agc_configure_def example_line_duration example_empty_cfg_def example_cfg_def
      example_new_agc_def example_context_def Let_def kMaxShutterSpeed_def
      kMinAnalogueGain_def kMaxAnalogueGain_def Af_configure_def example_stable_def)

lemma fold_invariant:
  assumes "P a" and "\<And>x a. P a \<Longrightarrow> P (f x a)"
  shows "P (fold f xs a)"
  using assms(1) by (induction xs arbitrary: a) (simp_all add: assms(2))

lemma iqm_sums_zero_bins: "iqm_sums (replicate k 0) b cum lo hi = (0, 0)"
  by (induction k arbitrary: b) (simp_all add: Let_def)

lemma interQuantileMean_first_bin: "interQuantileMean (n # replicate k 0) lo hi = 0"
  by (simp add: interQuantileMean_def iqm_sums_zero_bins Let_def)

lemma black_hist:
  assumes "\<And>i. Gr_avg (stats i) = 0 \<and> Gb_avg (stats i) = 0"
  shows "\<exists>n. brightness_hist stats grid stride = n # replicate 255 0"
proof -
  let ?P = "\<lambda>hist :: nat list. \<exists>n. hist = n # replicate 255 0"
  have start: "?P (replicate knumHistogramBins 0)"
    by (simp add: knumHistogramBins_def numeral_eq_Suc) 
  show ?thesis
    unfolding brightness_hist_def
    by (intro fold_invariant [where P = ?P] start) (auto simp: cell_at_def assms Let_def)
qed

lemma black_brightness:
  assumes "\<And>i. Gr_avg (stats i) = 0 \<and> Gb_avg (stats i) = 0"
  shows "measureBrightness stats grid stride = 0"
proof -
  obtain n where "brightness_hist stats grid stride = n # replicate 255 0"
    using black_hist [of stats grid stride] assms by blast
  then show ?thesis
    by (simp add: measureBrightness_def interQuantileMean_first_bin)
qed



lemma min_std_numbers: "min_std (Fin a) (Fin b) = Fin (min a b)"
  by (simp add: min_std_def min_def)

lemma saturated_number:
  "0 \<le> gain \<Longrightarrow> 0 \<le> r \<Longrightarrow>
   \<exists>r'. dadd (Fin r) (min_std (dmul (Fin (real n)) (Fin gain)) (Fin 255.0)) = Fin r' \<and> 0 \<le> r'"
  by (simp add: min_std_numbers)

lemma channel_sums_numbers:
  assumes "0 \<le> gain"
  shows "\<exists>r g b. channel_sums stats grid stride (Fin gain) = (Fin r, Fin g, Fin b) \<and>
           0 \<le> r \<and> 0 \<le> g \<and> 0 \<le> b"
proof -
  let ?P = "\<lambda>a :: double \<times> double \<times> double.
      \<exists>r g b. a = (Fin r, Fin g, Fin b) \<and> 0 \<le> r \<and> 0 \<le> g \<and> 0 \<le> b"
  have start: "?P (Fin 0, Fin 0, Fin 0)"
    by simp
  have step: "?P (case a of (redSum, greenSum, blueSum) \<Rightarrow>
           let cell = cell_at stats stride cellY cellX;
               G_avg = (unat (Gr_avg cell) + unat (Gb_avg cell)) div 2
           in (dadd redSum (min_std (dmul (Fin (real (unat (R_avg cell)))) (Fin gain)) (Fin 255.0)),
               dadd greenSum (min_std (dmul (Fin (real G_avg)) (Fin gain)) (Fin 255.0)),
               dadd blueSum (min_std (dmul (Fin (real (unat (B_avg cell)))) (Fin gain)) (Fin 255.0))))"
    if "?P a" for a cellY cellX
  proof -
    from that obtain r g b where a: "a = (Fin r, Fin g, Fin b)" "0 \<le> r" "0 \<le> g" "0 \<le> b"
      by blast
    let ?cell = "cell_at stats stride cellY cellX"
    from saturated_number [OF assms a(2), of "unat (R_avg ?cell)"]
      saturated_number [OF assms a(3), of "(unat (Gr_avg ?cell) + unat (Gb_avg ?cell)) div 2"]
      saturated_number [OF assms a(4), of "unat (B_avg ?cell)"]
    show ?thesis
      unfolding a(1) Let_def prod.case by blast
  qed
  show ?thesis
    unfolding channel_sums_def
    by (intro fold_invariant [where P = ?P] start step)
qed

lemma estimateLuminance_green:
  assumes "height grid * width grid \<noteq> 0" "0 \<le> gain"
  shows "\<exists>r gs b. 0 \<le> r \<and> 0 \<le> gs \<and> 0 \<le> b \<and>
     (\<forall>x. estimateLuminance (fc\<lparr>awb_gains_green := x\<rparr>) grid stats stride (Fin gain) =
        Fin ((r * awb_gains_red fc * 0.299 + gs * x * 0.587 + b * awb_gains_blue fc * 0.114)
             / real (height grid * width grid) / 255))"
proof -
  from channel_sums_numbers [OF assms(2), of stats grid stride]
  obtain r gs b where sums: "channel_sums stats grid stride (Fin gain) = (Fin r, Fin gs, Fin b)"
    and pos: "0 \<le> r" "0 \<le> gs" "0 \<le> b"
    by blast
  have "estimateLuminance (fc\<lparr>awb_gains_green := x\<rparr>) grid stats stride (Fin gain) =
      Fin ((r * awb_gains_red fc * 0.299 + gs * x * 0.587 + b * awb_gains_blue fc * 0.114)
        / real (height grid * width grid) / 255)" for x
    using assms(1) sums by (simp add: estimateLuminance_def)
  with pos show ?thesis by blast
qed

lemma yGain_loop_once:
  assumes "estimateLuminance fc grid stats stride (Fin yGain) = Fin y" "y + 0.001 \<noteq> 0"
  shows "yGain_loop (Suc 0) fc grid stats stride (Fin yGain) =
     Fin (yGain * min 10 (kRelativeLuminanceTarget / (y + 0.001)))"
  using assms by (simp add: Let_def min_std_numbers)

text \<open>
  Claim C8, as the source has it. For fixed statistics, grid and non-negative red and
  blue gains, and for a fixed running gain that is not negative, the estimated luminance
  does not decrease when the green gain grows; the correction factor
  \<open>min 10 (yTarget / (yValue + 0.001))\<close> and with it the gain estimate after one iteration
  of the loop therefore do not \<^emph>\<open>increase\<close>.
\<close>

theorem luminance_gain_antitone_in_green:
  assumes "height grid * width grid \<noteq> 0" and "0 \<le> yGain"
    and "0 \<le> awb_gains_red fc" and "0 \<le> awb_gains_blue fc"
    and "0 \<le> g" and "g \<le> g'"
  shows "\<exists>y y' e e'.
           estimateLuminance (fc\<lparr>awb_gains_green := g\<rparr>) grid stats stride (Fin yGain) = Fin y \<and>
           estimateLuminance (fc\<lparr>awb_gains_green := g'\<rparr>) grid stats stride (Fin yGain) = Fin y' \<and>
           y \<le> y' \<and>
           yGain_loop (Suc 0) (fc\<lparr>awb_gains_green := g\<rparr>) grid stats stride (Fin yGain) = Fin e \<and>
           yGain_loop (Suc 0) (fc\<lparr>awb_gains_green := g'\<rparr>) grid stats stride (Fin yGain) = Fin e' \<and>
           e' \<le> e"
proof -
  let ?n = "real (height grid * width grid)"
  from estimateLuminance_green [OF assms(1,2), of fc stats stride]
  obtain r gs b where pos: "0 \<le> r" "0 \<le> gs" "0 \<le> b"
    and lum: "\<And>x. estimateLuminance (fc\<lparr>awb_gains_green := x\<rparr>) grid stats stride (Fin yGain) =
        Fin ((r * awb_gains_red fc * 0.299 + gs * x * 0.587 + b * awb_gains_blue fc * 0.114)
             / ?n / 255)"
    by blast
  define y where
    "y = (r * awb_gains_red fc * 0.299 + gs * g * 0.587 + b * awb_gains_blue fc * 0.114) / ?n / 255"
  define y' where
    "y' = (r * awb_gains_red fc * 0.299 + gs * g' * 0.587 + b * awb_gains_blue fc * 0.114) / ?n / 255"
  have y: "estimateLuminance (fc\<lparr>awb_gains_green := g\<rparr>) grid stats stride (Fin yGain) = Fin y"
    and y': "estimateLuminance (fc\<lparr>awb_gains_green := g'\<rparr>) grid stats stride (Fin yGain) = Fin y'"
    by (simp_all add: lum y_def y'_def)
  from assms(6) pos(2) have "gs * g \<le> gs * g'"
    by (intro mult_left_mono)
  then have "r * awb_gains_red fc * 0.299 + gs * g * 0.587 + b * awb_gains_blue fc * 0.114
      \<le> r * awb_gains_red fc * 0.299 + gs * g' * 0.587 + b * awb_gains_blue fc * 0.114"
    by (intro add_mono mult_right_mono order_refl) simp_all
  then have le: "y \<le> y'"
    unfolding y_def y'_def by (intro divide_right_mono) simp_all
  have "0 \<le> r * awb_gains_red fc * 0.299 + gs * g * 0.587 + b * awb_gains_blue fc * 0.114"
    using pos assms(3,4,5) by (intro add_nonneg_nonneg mult_nonneg_nonneg) simp_all
  then have nonneg: "0 \<le> y"
    unfolding y_def by (intro divide_nonneg_nonneg) simp_all
  with le have d: "0 < y + 0.001" "y + 0.001 \<le> y' + 0.001" by simp_all
  then have "kRelativeLuminanceTarget / (y' + 0.001) \<le> kRelativeLuminanceTarget / (y + 0.001)"
    by (intro divide_left_mono) (simp_all add: kRelativeLuminanceTarget_def)
  then have "min 10 (kRelativeLuminanceTarget / (y' + 0.001))
      \<le> min 10 (kRelativeLuminanceTarget / (y + 0.001))"
    by (intro min.mono) simp_all
  with assms(2) have "yGain * min 10 (kRelativeLuminanceTarget / (y' + 0.001))
      \<le> yGain * min 10 (kRelativeLuminanceTarget / (y + 0.001))"
    by (rule mult_left_mono [rotated])
  moreover from d have "y + 0.001 \<noteq> 0" "y' + 0.001 \<noteq> 0" by simp_all
  ultimately show ?thesis
    using y y' le yGain_loop_once [OF y] yGain_loop_once [OF y'] by blast
qed

text \<open>
  The theorem at a grid of one cell with green averages 128 and no red or blue, for the
  green gains 1 and 2.
\<close>

theorem luminance_gain_antitone_in_green_witness:
  "height example_one_cell * width example_one_cell \<noteq> 0 \<and>
   (\<exists>e e'. yGain_loop (Suc 0) (example_context\<lparr>awb_gains_green := 1\<rparr>) example_one_cell
              example_green_cell 1 (Fin 1) = Fin e \<and>
            yGain_loop (Suc 0) (example_context\<lparr>awb_gains_green := 2\<rparr>) example_one_cell
              example_green_cell 1 (Fin 1) = Fin e' \<and> e' \<le> e)"
proof -
  have "height example_one_cell * width example_one_cell \<noteq> 0" "(0::real) \<le> 1"
    "0 \<le> awb_gains_red example_context" "0 \<le> awb_gains_blue example_context"
    "(0::real) \<le> 1" "(1::real) \<le> 2"
    by (simp_all add: example_one_cell_def example_context_def)
  from luminance_gain_antitone_in_green [OF this, of example_green_cell 1] this(1)
  show ?thesis by blast
qed

lemma example_green_luminance:
  "estimateLuminance (example_context\<lparr>awb_gains_green := g\<rparr>) example_one_cell
     example_green_cell 1 (Fin 1) = Fin (128 * g * 0.587 / 255)"
  by (simp add: estimateLuminance_def channel_sums_def cell_at_def example_one_cell_def
      example_green_cell_def example_context_def Let_def min_std_numbers)

lemma yGain_loop_break:
  assumes "estimateLuminance fc grid stats stride (Fin yGain) = Fin y" and "y + 0.001 \<noteq> 0"
    and "kRelativeLuminanceTarget / (y + 0.001) < 1.01"
  shows "yGain_loop (Suc n) fc grid stats stride (Fin yGain) =
     Fin (yGain * (kRelativeLuminanceTarget / (y + 0.001)))"
proof -
  have "min 10.0 x = x" if "x < 1.01" for x :: real
    using that by simp
  from this [OF assms(3)]
  have "min_std (Fin 10.0) (ddiv (Fin kRelativeLuminanceTarget) (dadd (Fin y) (Fin 0.001)))
      = Fin (kRelativeLuminanceTarget / (y + 0.001))"
    using assms(2) by (simp add: min_std_numbers)
  then show ?thesis
    unfolding yGain_loop.simps Let_def assms(1) dmul.simps dless.simps
    using assms(3) by simp
qed

lemma example_green_gain:
  assumes "kRelativeLuminanceTarget / (128 * g * 0.587 / 255 + 0.001) < 1.01"
    and "0 \<le> g"
  shows "yGain_loop (Suc n) (example_context\<lparr>awb_gains_green := g\<rparr>) example_one_cell
     example_green_cell 1 (Fin 1) = Fin (kRelativeLuminanceTarget / (128 * g * 0.587 / 255 + 0.001))"
proof -
  have "128 * g * 0.587 / 255 + 0.001 \<noteq> 0"
    using assms(2) by (simp add: add_nonneg_eq_0_iff)
  from yGain_loop_break [OF example_green_luminance this assms(1)] show ?thesis
    by simp
qed

text \<open>
  Claim C8 as stated fails at this input: on one cell with green averages 128 the loop
  of \<open>Agc_process\<close> stops after its first iteration, and raising the green gain from 1 to
  2 lowers the gain estimate from \<open>40800 / 75391\<close> to \<open>40800 / 150527\<close>.
\<close>

theorem luminance_gain_decreases_with_green:
  "yGain_loop 8 (example_context\<lparr>awb_gains_green := 1\<rparr>) example_one_cell
     example_green_cell 1 (Fin 1) = Fin (40800 / 75391) \<and>
   yGain_loop 8 (example_context\<lparr>awb_gains_green := 2\<rparr>) example_one_cell
     example_green_cell 1 (Fin 1) = Fin (40800 / 150527) \<and>
   (40800 / 150527 :: real) < 40800 / 75391"
proof -
  have 8: "(8::nat) = Suc 7" by simp
  have "yGain_loop 8 (example_context\<lparr>awb_gains_green := 1\<rparr>) example_one_cell
     example_green_cell 1 (Fin 1) = Fin (kRelativeLuminanceTarget / (128 * 1 * 0.587 / 255 + 0.001))"
    unfolding 8 by (rule example_green_gain) (simp_all add: kRelativeLuminanceTarget_def)
  moreover have "yGain_loop 8 (example_context\<lparr>awb_gains_green := 2\<rparr>) example_one_cell
     example_green_cell 1 (Fin 1) = Fin (kRelativeLuminanceTarget / (128 * 2 * 0.587 / 255 + 0.001))"
    unfolding 8 by (rule example_green_gain) (simp_all add: kRelativeLuminanceTarget_def)
  ultimately show ?thesis
    by (simp add: kRelativeLuminanceTarget_def)
qed





lemma two: "[0..<2] = [0, 1]"
  by (simp add: numeral_2_eq_2)




















text \<open>
  The count of lines is the truncated \<^emph>\<open>rounded\<close> quotient. A line of 1000 pixels at
  360 MHz lasts \<open>25000 / 9\<close> ns, which is not a binary64 number; the line duration is
  the nearest one. Fifteen of these line durations, again rounded to binary64, are a
  shutter time that counts 14 lines.
\<close>

lemma rounded_quotient_is_truncated:
  "sensor_lineDuration example_fast_info = Fin (6108397932088889 / 2199023255552) \<and>
   round_double (15 * (6108397932088889 / 2199023255552))
     = Fin (5726623061333333 / 137438953472) \<and>
   duration_lines (Fin (5726623061333333 / 137438953472))
     (sensor_lineDuration example_fast_info) = Inr 14"
  by (simp add: sensor_lineDuration_def duration_lines_def example_fast_info_def
      round_evaluation)



text \<open>
  The bound of the filtered exposure is one of exact values. In binary64 the filter's
  expression can exceed it by a rounding error. With the filtered exposure and the target
  both at 66000000 ns and the frame counter past the startup window, the speed is the
  square root of the \<^verbatim>\<open>double\<close> 0.2, rounded, and
  \<^verbatim>\<open>speed * currentExposure_ + filteredExposure_ * (1.0 - speed)\<close>, rounded after each
  operation, is \<open>66000000 + 1 / 2 ^ 27\<close>.
\<close>

lemma rounded_sqrt_fifth:
  "round_double (sqrt (3602879701896397 / 18014398509481984))
     = Fin (8056283928194521 / 18014398509481984)"
proof -
  define x :: real where "x = 3602879701896397 / 18014398509481984"
  define y where "y = sqrt x"
  have lo: "16112567856389041 / 36028797018963968 < y"
    unfolding y_def by (rule real_less_rsqrt) (simp add: x_def power2_eq_square)
  have hi: "y < 16112567856389043 / 36028797018963968"
    unfolding y_def by (rule real_less_lsqrt) (simp_all add: x_def power2_eq_square)
  from lo have pos: "0 < y" by simp
  from lo hi have inv: "2 < 1 / y" "1 / y \<le> 3"
    using pos by (simp_all add: field_simps)
  then have c: "\<lceil>1 / y\<rceil> = 3" by (intro ceiling_unique) simp_all
  from hi have lt: "\<not> 1 \<le> y" by simp
  have b: "binade (- 1022) \<bar>y\<bar> = - 2"
    using pos lt by (simp add: binade_def c log2_floor.simps)
  have u: "(2 :: real) powi (- 2 - int 52) = 1 / 18014398509481984"
    by (simp add: power_int_def power_one_over)
  define z where "z = y / (1 / 18014398509481984)"
  from lo hi have "8056283928194521 - 1 / 2 < z" "z < 8056283928194521 + 1 / 2"
    by (simp_all add: z_def)
  then have "\<bar>z - of_int 8056283928194521\<bar> < 1 / 2"
    by (simp only: abs_less_iff of_int_numeral) simp
  then have "\<bar>y / (1 / 18014398509481984) - of_int 8056283928194521\<bar> < 1 / 2"
    by (simp only: z_def)
  then have r: "round_even (y / (1 / 18014398509481984)) = 8056283928194521"
    by (rule round_even_near)
  have "round_double y =
      (if y = 0 then Fin 0
       else if double_overflow \<le> \<bar>of_int 8056283928194521 * (1 / 18014398509481984)\<bar>
            then (if 0 < y then PInf else MInf)
            else Fin (of_int 8056283928194521 * (1 / 18014398509481984)))"
    by (simp only: round_double_def round_nearest_def Let_def b u r)
  then have "round_double y = Fin (8056283928194521 / 18014398509481984)"
    using pos by (simp add: below_overflow_plain below_overflow_times)
  then show ?thesis by (simp only: y_def x_def)
qed

lemma rounded_filter_exceeds_product:
  "round_double 0.2 = Fin (3602879701896397 / 18014398509481984) \<and>
   round_double (sqrt (3602879701896397 / 18014398509481984))
     = Fin (8056283928194521 / 18014398509481984) \<and>
   round_double (1.0 - 8056283928194521 / 18014398509481984)
     = Fin (1244764322660933 / 2251799813685248) \<and>
   round_double (8056283928194521 / 18014398509481984 * 66000000)
     = Fin (3961583519435215 / 134217728) \<and>
   round_double (66000000 * (1244764322660933 / 2251799813685248))
     = Fin (2448393264282393 / 67108864) \<and>
   round_double (3961583519435215 / 134217728 + 2448393264282393 / 67108864)
     = Fin (66000000 + 1 / 134217728)"
  by (simp add: rounded_sqrt_fifth) (simp add: round_evaluation)







lemma example_black_luminance:
  "estimateLuminance fc \<lparr>width = 2, height = 2\<rparr> example_black 2 (Fin g) = Fin 0"
  by (simp add: estimateLuminance_def channel_sums_def two cell_at_def example_black_def Let_def
      min_std_numbers)

lemma example_black_yGain:
  "yGain_loop n fc \<lparr>width = 2, height = 2\<rparr> example_black 2 (Fin y) = Fin (y * 10 ^ n)"
proof (induction n arbitrary: y)
  case 0
  show ?case by simp
next
  case (Suc n)
  have "yGain_loop (Suc n) fc \<lparr>width = 2, height = 2\<rparr> example_black 2 (Fin y) =
      yGain_loop n fc \<lparr>width = 2, height = 2\<rparr> example_black 2 (Fin (y * 10))"
    by (simp add: example_black_luminance Let_def min_std_numbers kRelativeLuminanceTarget_def)
  with Suc.IH [of "y * 10"] show ?case by simp
qed

text \<open>
  Claim C7, which asks that every divisor of a gain computation be raised by a small
  epsilon, at a black frame. The cells are all zero, the histogram has all its mass in
  bin 0, and the inter-quantile mean is 0. The luminance estimator divides by
  \<open>yValue + 0.001\<close>; the quantile estimator divides by the mean itself, and the quotient
  \<open>kEvGainTarget * knumHistogramBins / iqMean\<close> of line 324 is a division by zero, whose
  value is an infinity. The call goes on with it: the target is clamped to the session's
  maximum of 480 ms and the frame context receives 3000 lines and a gain of 8.
\<close>

theorem black_frame_divides_by_zero:
  "measureBrightness example_black (grid_bdsGrid example_cfg) 2 = 0 \<and>
   ddiv (Fin (kEvGainTarget * real knumHistogramBins))
        (Fin (measureBrightness example_black (grid_bdsGrid example_cfg) 2)) = PInf \<and>
   Agc_process (example_session 0 60000000 0 0) example_cfg
     (frame_context example_context example_black_frame) example_black =
     Inr (example_session 1 60000000 480000000 480000000,
          (frame_context example_context example_black_frame)
            \<lparr>agc_exposure := 3000, agc_gain := Fin 8\<rparr>)"
proof -
  have b: "measureBrightness example_black grid stride = 0" for grid stride
    by (rule black_brightness) (simp add: example_black_def)
  have q: "ddiv (Fin (kEvGainTarget * real knumHistogramBins)) (Fin 0) = PInf"
    by (simp add: kEvGainTarget_def knumHistogramBins_def)
  have g: "grid_bdsGrid example_cfg = \<lparr>width = 2, height = 2\<rparr>"
    "m_stride (example_session 0 60000000 0 0) = 2"
    by (simp_all add: example_cfg_def example_session_def)
  have c: "computeExposure (example_session 0 60000000 0 0)
      (frame_context example_context example_black_frame) (Fin (1.0 * 10 ^ 8)) PInf =
    Inr (example_session 0 60000000 480000000 480000000,
         (frame_context example_context example_black_frame)
           \<lparr>agc_exposure := 3000, agc_gain := Fin 8\<rparr>)"
    by (simp add: computeExposure_def filterExposure_def example_session_def
        frame_context_def example_frame_def example_black_frame_def Let_def clamp_std_def
        min_std_def max_std_def deq_def kNumStartupFrames_def)
  have "Agc_process (example_session 0 60000000 0 0) example_cfg
     (frame_context example_context example_black_frame) example_black =
     Inr (example_session 1 60000000 480000000 480000000,
          (frame_context example_context example_black_frame)
            \<lparr>agc_exposure := 3000, agc_gain := Fin 8\<rparr>)"
    unfolding Agc_process_def Let_def g b q example_black_yGain c
    by (simp add: example_session_def)
  with b q show ?thesis by simp
qed

end
